theory Spec2Isabelle
  imports Main "HOL-Library.Sublist" "HOL-Library.AList"
begin

section \<open>Data model\<close>

text \<open>
  The module \<^verbatim>\<open>vector_memory.py\<close> has two tools, \<^verbatim>\<open>save_to_memory\<close> and
  \<^verbatim>\<open>recall_from_memory\<close>. Both orchestrate libraries that are not part of the
  repository (the Redis client, the vector store, the document loaders, the text
  splitter, \<^verbatim>\<open>os.path\<close>, \<^verbatim>\<open>json\<close>). Every call into such a library is a field of
  the record \<open>env\<close> below; the control flow around the calls is translated line by
  line. A Python \<^verbatim>\<open>str\<close> and a Python \<^verbatim>\<open>bytes\<close> are both a \<open>string\<close> here (the
  UTF-8 bytes).
\<close>

type_synonym path = string
type_synonym key = string

text \<open>A raised exception \<open>e\<close>; the string is \<^verbatim>\<open>str(e)\<close>.\<close>

datatype exn = Exn string

fun exn_str :: "exn \<Rightarrow> string" where
  "exn_str (Exn m) = m"

text \<open>
  A metadata value: a \<^verbatim>\<open>str\<close>, or any other object, of which only its \<^verbatim>\<open>str()\<close>
  rendering is kept. What \<^verbatim>\<open>json.loads\<close> returns: a \<^verbatim>\<open>dict\<close>, or something that is
  not one (a list, a number, a string, \<^verbatim>\<open>None\<close>).
\<close>

datatype pyval = PStr string | PObj string

datatype pyjson = JDict "(string \<times> pyval) list" | JOther

fun py_str :: "pyval \<Rightarrow> string" where
  "py_str (PStr s) = s"
| "py_str (PObj r) = r"

text \<open>langchain's \<^verbatim>\<open>Document\<close>: the text and the metadata dictionary.\<close>

record document =
  page_content :: string
  metadata :: "(string \<times> pyval) list"

text \<open>What \<^verbatim>\<open>hgetall\<close> returns: the fields of one Redis hash, name to value.\<close>

type_synonym hash = "(string \<times> string) list"

text \<open>
  The outcome of a tool call: the string it returns, or the exception that leaves it.
\<close>

datatype outcome = Returned string | Raised exn

text \<open>
  The libraries the module calls, over a state \<open>'s\<close> of the Redis server. A call that can
  raise returns a sum (\<open>Inl\<close> the exception); a call that writes returns the new state,
  also when it raises. The file system is read only and does not change during a call.
  \<^item> \<open>abspath\<close>, \<open>path_exists\<close>: \<^verbatim>\<open>os.path.abspath\<close>, \<^verbatim>\<open>os.path.exists\<close>;
  \<^item> \<open>splitter_init\<close>: the constructor \<^verbatim>\<open>RecursiveCharacterTextSplitter(chunk_size, chunk_overlap)\<close>,
    \<open>Some x\<close> when it raises \<open>x\<close>;
  \<^item> \<open>pdf_load\<close>, \<open>text_load\<close>: \<^verbatim>\<open>PyPDFLoader(p).load()\<close> and
    \<^verbatim>\<open>TextLoader(p, encoding="utf-8").load()\<close>;
  \<^item> \<open>split_documents\<close>: \<^verbatim>\<open>splitter.split_documents\<close> of the splitter built from the two sizes;
  \<^item> \<open>redis_keys\<close>, \<open>redis_hgetall\<close>, \<open>redis_delete\<close>: the three Redis commands of the dedup pass;
  \<^item> \<open>decode_utf8\<close>, \<open>json_loads\<close>: \<^verbatim>\<open>bytes.decode('utf-8')\<close> and \<^verbatim>\<open>json.loads\<close>;
  \<^item> \<open>add_documents\<close>, \<open>similarity_search\<close>: the two calls on the vector store.
\<close>

record 's env =
  abspath :: "path \<Rightarrow> path"
  path_exists :: "path \<Rightarrow> bool"
  splitter_init :: "int \<Rightarrow> int \<Rightarrow> exn option"
  pdf_load :: "path \<Rightarrow> exn + document list"
  text_load :: "path \<Rightarrow> exn + document list"
  split_documents :: "int \<Rightarrow> int \<Rightarrow> document list \<Rightarrow> exn + document list"
  redis_keys :: "'s \<Rightarrow> string \<Rightarrow> exn + key list"
  redis_hgetall :: "'s \<Rightarrow> key \<Rightarrow> exn + hash"
  redis_delete :: "'s \<Rightarrow> key list \<Rightarrow> exn option \<times> 's"
  decode_utf8 :: "string \<Rightarrow> exn + string"
  json_loads :: "string \<Rightarrow> exn + pyjson"
  add_documents :: "'s \<Rightarrow> document list \<Rightarrow> exn option \<times> 's"
  similarity_search :: "'s \<Rightarrow> string \<Rightarrow> int \<Rightarrow> exn + document list"

section \<open>Strings\<close>

definition INDEX_NAME :: string where
  "INDEX_NAME = ''doc_chunks''"

definition newline :: string where
  "newline = [CHR 0x0A]"

text \<open>The decimal digits of a natural number, as an f-string prints \<^verbatim>\<open>{i}\<close>.\<close>

definition digit :: "nat \<Rightarrow> char" where
  "digit d = ''0123456789'' ! d"

fun str_nat :: "nat \<Rightarrow> string" where
  "str_nat n = (if n < 10 then [digit n] else str_nat (n div 10) @ [digit (n mod 10)])"

declare str_nat.simps [simp del]

text \<open>
  \<^verbatim>\<open>os.path.splitext(p)[1]\<close> on a POSIX path: the part of the last component from
  its last dot on, when some character before that dot in the component is not a
  dot; otherwise empty.
\<close>

definition basename :: "path \<Rightarrow> string" where
  "basename p = rev (takeWhile (\<lambda>c. c \<noteq> CHR ''/'') (rev p))"

definition splitext_ext :: "path \<Rightarrow> string" where
  "splitext_ext p =
     (let b = basename p;
          suf = takeWhile (\<lambda>c. c \<noteq> CHR ''.'') (rev b);
          stem = rev (drop (Suc (length suf)) (rev b))
      in if CHR ''.'' \<in> set b \<and> (\<exists>c \<in> set stem. c \<noteq> CHR ''.'')
         then CHR ''.'' # rev suf else [])"

text \<open>
  \<^verbatim>\<open>str.lower\<close>, on the ASCII letters. No other character lowers to one of
  \<^verbatim>\<open>p\<close>, \<^verbatim>\<open>d\<close>, \<^verbatim>\<open>f\<close>, so the comparison with \<^verbatim>\<open>".pdf"\<close> is the source's.
\<close>

definition lower_char :: "char \<Rightarrow> char" where
  "lower_char c =
     (case map_of (zip ''ABCDEFGHIJKLMNOPQRSTUVWXYZ'' ''abcdefghijklmnopqrstuvwxyz'') c of
        Some l \<Rightarrow> l
      | None \<Rightarrow> c)"

definition lower :: "string \<Rightarrow> string" where
  "lower s = map lower_char s"

section \<open>The dedup pass of \<^verbatim>\<open>save_to_memory\<close> (lines 58 to 85)\<close>

text \<open>
  Lines 71 to 79: does the hash \<open>doc_data\<close> of one key name the path \<open>abs_path\<close>? The
  field \<^verbatim>\<open>source_file\<close> is looked at first; only when it is absent, the JSON text in
  \<^verbatim>\<open>_metadata_json\<close>. \<^verbatim>\<open>metadata.get\<close> on a value that is not a dictionary raises.
\<close>

definition entry_matches :: "'s env \<Rightarrow> path \<Rightarrow> hash \<Rightarrow> exn + bool" where
  "entry_matches e abs_path doc_data =
     (case map_of doc_data ''source_file'' of
        Some v \<Rightarrow>
          (case decode_utf8 e v of
             Inl x \<Rightarrow> Inl x
           | Inr stored_path \<Rightarrow> Inr (stored_path = abs_path))
      | None \<Rightarrow>
          (case map_of doc_data ''_metadata_json'' of
             Some v \<Rightarrow>
               (case decode_utf8 e v of
                  Inl x \<Rightarrow> Inl x
                | Inr metadata_str \<Rightarrow>
                    (case json_loads e metadata_str of
                       Inl x \<Rightarrow> Inl x
                     | Inr JOther \<Rightarrow> Inl (Exn ''AttributeError'')
                     | Inr (JDict m) \<Rightarrow> Inr (map_of m ''source_file'' = Some (PStr abs_path))))
           | None \<Rightarrow> Inr False))"

text \<open>
  Lines 68 to 79: the loop over the keys, collecting \<open>keys_to_delete\<close> in order. The
  first exception ends it.
\<close>

fun scan_keys :: "'s env \<Rightarrow> 's \<Rightarrow> path \<Rightarrow> key list \<Rightarrow> exn + key list" where
  "scan_keys e s abs_path [] = Inr []"
| "scan_keys e s abs_path (k # ks) =
     (case redis_hgetall e s k of
        Inl x \<Rightarrow> Inl x
      | Inr doc_data \<Rightarrow>
          (case entry_matches e abs_path doc_data of
             Inl x \<Rightarrow> Inl x
           | Inr b \<Rightarrow>
               (case scan_keys e s abs_path ks of
                  Inl x \<Rightarrow> Inl x
                | Inr keys_to_delete \<Rightarrow> Inr (if b then k # keys_to_delete else keys_to_delete))))"

text \<open>
  Lines 64 to 82, the body of the \<^verbatim>\<open>try\<close>: the exception that ends it, if any, and
  the state it leaves.
\<close>

definition dedup_try :: "'s env \<Rightarrow> 's \<Rightarrow> path \<Rightarrow> exn option \<times> 's" where
  "dedup_try e s abs_path =
     (case redis_keys e s (INDEX_NAME @ '':*'') of
        Inl x \<Rightarrow> (Some x, s)
      | Inr keys \<Rightarrow>
          (case scan_keys e s abs_path keys of
             Inl x \<Rightarrow> (Some x, s)
           | Inr keys_to_delete \<Rightarrow>
               if keys_to_delete \<noteq> [] then redis_delete e s keys_to_delete else (None, s)))"

text \<open>Lines 83 to 85: \<^verbatim>\<open>except Exception: pass\<close>.\<close>

definition dedup_path :: "'s env \<Rightarrow> 's \<Rightarrow> path \<Rightarrow> 's" where
  "dedup_path e s abs_path = snd (dedup_try e s abs_path)"

text \<open>Lines 60 to 85: the loop over \<open>file_paths\<close>.\<close>

fun dedup_all :: "'s env \<Rightarrow> 's \<Rightarrow> path list \<Rightarrow> 's" where
  "dedup_all e s [] = s"
| "dedup_all e s (file_path # rest) = dedup_all e (dedup_path e s (abspath e file_path)) rest"

section \<open>The load pass (lines 88 to 116)\<close>

definition set_source :: "path \<Rightarrow> document \<Rightarrow> document" where
  "set_source abs_path chunk =
     chunk\<lparr>metadata := AList.update ''source_file'' (PStr abs_path) (metadata chunk)\<rparr>"

text \<open>Lines 99 to 114, the body of the \<^verbatim>\<open>try\<close> for one path.\<close>

definition load_chunks :: "'s env \<Rightarrow> int \<Rightarrow> int \<Rightarrow> path \<Rightarrow> exn + document list" where
  "load_chunks e chunk_size chunk_overlap abs_path =
     (case (if lower (splitext_ext abs_path) = ''.pdf''
            then pdf_load e abs_path else text_load e abs_path) of
        Inl x \<Rightarrow> Inl x
      | Inr file_docs \<Rightarrow>
          (case split_documents e chunk_size chunk_overlap file_docs of
             Inl x \<Rightarrow> Inl x
           | Inr chunks \<Rightarrow> Inr (map (set_source abs_path) chunks)))"

text \<open>
  Lines 88 to 116: the loop, with \<open>docs\<close> as the accumulator; \<open>Inl\<close> is the string of
  an early \<^verbatim>\<open>return\<close>.
\<close>

fun load_files :: "'s env \<Rightarrow> int \<Rightarrow> int \<Rightarrow> path list \<Rightarrow> document list \<Rightarrow> string + document list" where
  "load_files e chunk_size chunk_overlap [] docs = Inr docs"
| "load_files e chunk_size chunk_overlap (file_path # rest) docs =
     (let abs_path = abspath e file_path in
      if \<not> path_exists e abs_path then Inl (''Error: File not found: '' @ abs_path)
      else
        (case load_chunks e chunk_size chunk_overlap abs_path of
           Inl x \<Rightarrow> Inl (''Error processing '' @ abs_path @ '': '' @ exn_str x)
         | Inr chunks \<Rightarrow> load_files e chunk_size chunk_overlap rest (docs @ chunks)))"

section \<open>\<^verbatim>\<open>save_to_memory\<close> and \<^verbatim>\<open>recall_from_memory\<close>\<close>

text \<open>
  Line 121. The message starts with the seven bytes the source file has before
  \<^verbatim>\<open>Successfully\<close>.
\<close>

definition success_msg :: "nat \<Rightarrow> string" where
  "success_msg n =
     [CHR 0xC3, CHR 0xA2, CHR 0xC5, CHR 0x93, CHR 0xE2, CHR 0x80, CHR 0xA6]
     @ '' Successfully saved '' @ str_nat n
     @ '' file(s) to memory. Content is now available for recall.''"

text \<open>
  Lines 53 to 123. The splitter is built before the first \<^verbatim>\<open>try\<close>, so an exception
  of its constructor leaves the function. The two imports and the construction of
  the Redis client from the constant URL (lines 50, 51 and 59) do not reach the
  server and are taken not to raise.
\<close>

definition save_to_memory :: "'s env \<Rightarrow> 's \<Rightarrow> path list \<Rightarrow> int \<Rightarrow> int \<Rightarrow> outcome \<times> 's" where
  "save_to_memory e s file_paths chunk_size chunk_overlap =
     (case splitter_init e chunk_size chunk_overlap of
        Some x \<Rightarrow> (Raised x, s)
      | None \<Rightarrow>
          (let s1 = dedup_all e s file_paths in
           case load_files e chunk_size chunk_overlap file_paths [] of
             Inl msg \<Rightarrow> (Returned msg, s1)
           | Inr docs \<Rightarrow>
               (case add_documents e s1 docs of
                  (None, s2) \<Rightarrow> (Returned (success_msg (length file_paths)), s2)
                | (Some x, s2) \<Rightarrow> (Returned (''Error saving to memory: '' @ exn_str x), s2))))"

text \<open>Lines 150 to 154: the block of the result ranked \<open>i\<close>.\<close>

definition result_block :: "nat \<Rightarrow> document \<Rightarrow> string" where
  "result_block i doc =
     (let source_file = (case map_of (metadata doc) ''source_file'' of
                           Some v \<Rightarrow> py_str v | None \<Rightarrow> ''unknown'')
      in ''**Result '' @ str_nat i @ ''**'' @ newline @ ''Source: '' @ source_file
         @ newline @ newline @ ''Content:'' @ newline @ page_content doc @ newline)"

text \<open>\<^verbatim>\<open>sep.join(parts)\<close>.\<close>

fun join :: "string \<Rightarrow> string list \<Rightarrow> string" where
  "join sep [] = []"
| "join sep [x] = x"
| "join sep (x # y # ys) = x @ sep @ join sep (y # ys)"

definition nothing_found :: string where
  "nothing_found = ''Nothing found in memory matching your query.''"

definition separator :: string where
  "separator = newline @ ''---'' @ newline"

text \<open>Lines 142 to 158. \<^verbatim>\<open>enumerate(results, 1)\<close> numbers the results from 1.\<close>

definition recall_from_memory :: "'s env \<Rightarrow> 's \<Rightarrow> string \<Rightarrow> int \<Rightarrow> string" where
  "recall_from_memory e s query k =
     (case similarity_search e s query k of
        Inl x \<Rightarrow> ''Error recalling from memory: '' @ exn_str x
      | Inr results \<Rightarrow>
          if results = [] then nothing_found
          else join separator
                 (map (\<lambda>(i, doc). result_block i doc)
                    (zip [1..<Suc (length results)] results)))"

section \<open>A reference Redis server and vector store\<close>

text \<open>
  The claims about what the index holds after a call need the meaning of the Redis
  commands and of \<^verbatim>\<open>add_documents\<close>. The reference server is the keyspace as a
  list of keys with their hashes, one pair per key, and its commands never raise:
  \<^item> \<^verbatim>\<open>KEYS\<close> with a pattern \<^verbatim>\<open>lit*\<close> returns the keys that start with \<^verbatim>\<open>lit\<close>
    (the module uses no other pattern);
  \<^item> \<^verbatim>\<open>HGETALL\<close> returns the hash of the key, empty when the key is absent;
  \<^item> \<^verbatim>\<open>DEL\<close> removes the keys given.
  The reference vector store writes one hash per document under a key that is new
  and starts with \<^verbatim>\<open>doc_chunks:\<close>; \<open>lay\<close> is how it lays a document out as a hash
  (its text, its embedding, its metadata), which may raise. It lays out every
  document before it writes the first.
\<close>

type_synonym store = "(key \<times> hash) list"

definition is_index_key :: "key \<Rightarrow> bool" where
  "is_index_key k = prefix (INDEX_NAME @ '':'') k"

definition mem_keys :: "store \<Rightarrow> string \<Rightarrow> exn + key list" where
  "mem_keys st pat =
     (if pat \<noteq> [] \<and> last pat = CHR ''*'' \<and> CHR ''*'' \<notin> set (butlast pat)
      then Inr (filter (prefix (butlast pat)) (map fst st))
      else Inl (Exn ''pattern not modelled''))"

definition mem_hgetall :: "store \<Rightarrow> key \<Rightarrow> exn + hash" where
  "mem_hgetall st k = Inr (case map_of st k of Some h \<Rightarrow> h | None \<Rightarrow> [])"

definition mem_delete :: "store \<Rightarrow> key list \<Rightarrow> exn option \<times> store" where
  "mem_delete st ks = (None, filter (\<lambda>kh. fst kh \<notin> set ks) st)"

text \<open>A key longer than every key of the store, hence new.\<close>

definition fresh_key :: "store \<Rightarrow> key" where
  "fresh_key st =
     INDEX_NAME @ '':''
       @ replicate (Suc (foldr (\<lambda>kh n. max (length (fst kh)) n) st 0 - 11)) (CHR ''0'')"

fun mem_insert :: "store \<Rightarrow> hash list \<Rightarrow> store" where
  "mem_insert st [] = st"
| "mem_insert st (h # hs) = mem_insert (st @ [(fresh_key st, h)]) hs"

fun lay_all :: "(document \<Rightarrow> exn + hash) \<Rightarrow> document list \<Rightarrow> exn + hash list" where
  "lay_all lay [] = Inr []"
| "lay_all lay (d # ds) =
     (case lay d of
        Inl x \<Rightarrow> Inl x
      | Inr h \<Rightarrow> (case lay_all lay ds of Inl x \<Rightarrow> Inl x | Inr hs \<Rightarrow> Inr (h # hs)))"

definition mem_add_documents ::
  "(document \<Rightarrow> exn + hash) \<Rightarrow> store \<Rightarrow> document list \<Rightarrow> exn option \<times> store" where
  "mem_add_documents lay st docs =
     (case lay_all lay docs of
        Inl x \<Rightarrow> (Some x, st)
      | Inr hs \<Rightarrow> (None, mem_insert st hs))"

text \<open>An environment whose Redis server and vector store are the reference ones.\<close>

definition mem_env :: "(document \<Rightarrow> exn + hash) \<Rightarrow> store env \<Rightarrow> store env" where
  "mem_env lay e =
     e\<lparr>redis_keys := mem_keys, redis_hgetall := mem_hgetall,
       redis_delete := mem_delete, add_documents := mem_add_documents lay\<rparr>"

text \<open>
  The Index Entries whose stored source path is \<open>abs_path\<close>: the pairs under the
  index's key prefix that the scan of lines 71 to 79 matches with \<open>abs_path\<close>.
\<close>

definition is_entry_for :: "store env \<Rightarrow> path \<Rightarrow> key \<times> hash \<Rightarrow> bool" where
  "is_entry_for e abs_path kh =
     (is_index_key (fst kh) \<and> entry_matches e abs_path (snd kh) = Inr True)"

definition entries_for :: "store env \<Rightarrow> path \<Rightarrow> store \<Rightarrow> store" where
  "entries_for e abs_path st = filter (is_entry_for e abs_path) st"

text \<open>
  The scan of an entry raises nothing: its \<^verbatim>\<open>source_file\<close> field decodes, or it has
  none and its \<^verbatim>\<open>_metadata_json\<close> field, if any, decodes and parses to a dictionary.
\<close>

definition readable :: "store env \<Rightarrow> hash \<Rightarrow> bool" where
  "readable e h =
     (case map_of h ''source_file'' of
        Some v \<Rightarrow> (case decode_utf8 e v of Inl x \<Rightarrow> False | Inr s \<Rightarrow> True)
      | None \<Rightarrow>
          (case map_of h ''_metadata_json'' of
             Some v \<Rightarrow>
               (case decode_utf8 e v of
                  Inl x \<Rightarrow> False
                | Inr s \<Rightarrow> (case json_loads e s of Inr (JDict m) \<Rightarrow> True | _ \<Rightarrow> False))
           | None \<Rightarrow> True))"

definition all_readable :: "store env \<Rightarrow> store \<Rightarrow> bool" where
  "all_readable e st = list_all (\<lambda>kh. is_index_key (fst kh) \<longrightarrow> readable e (snd kh)) st"

text \<open>
  The vector store's layout agrees with the scan: from the hash of a document the
  scan reads back whether the document's \<^verbatim>\<open>source_file\<close> metadata is the path asked for.
\<close>

definition layout_ok :: "store env \<Rightarrow> (document \<Rightarrow> exn + hash) \<Rightarrow> bool" where
  "layout_ok e lay =
     (\<forall>d h abs_path. lay d = Inr h \<longrightarrow>
        entry_matches e abs_path h = Inr (map_of (metadata d) ''source_file'' = Some (PStr abs_path)))"

text \<open>
  Two more properties of a vector store. Its search in the state \<open>st\<close> returns only
  documents it has stored: each result is laid out as the hash of some pair of \<open>st\<close>
  under the index's prefix. And the hash of a document determines the document's text.
\<close>

definition search_from_store :: "store env \<Rightarrow> (document \<Rightarrow> exn + hash) \<Rightarrow> store \<Rightarrow> bool" where
  "search_from_store e lay st =
     (\<forall>q k rs. similarity_search e st q k = Inr rs \<longrightarrow>
        (\<forall>d \<in> set rs. \<exists>kh \<in> set st. is_index_key (fst kh) \<and> lay d = Inr (snd kh)))"

definition lay_keeps_content :: "(document \<Rightarrow> exn + hash) \<Rightarrow> bool" where
  "lay_keeps_content lay =
     (\<forall>d d' h. lay d = Inr h \<and> lay d' = Inr h \<longrightarrow> page_content d = page_content d')"

section \<open>What one file contributes to the load pass\<close>

text \<open>
  The two early returns of the loop body (lines 94 and 116) for the canonical path
  \<open>abs_path\<close>, and the chunks the body appends to \<open>docs\<close> (line 114) when it
  returns nothing.
\<close>

definition file_error :: "'s env \<Rightarrow> int \<Rightarrow> int \<Rightarrow> path \<Rightarrow> string option" where
  "file_error e chunk_size chunk_overlap abs_path =
     (if \<not> path_exists e abs_path then Some (''Error: File not found: '' @ abs_path)
      else
        (case load_chunks e chunk_size chunk_overlap abs_path of
           Inl x \<Rightarrow> Some (''Error processing '' @ abs_path @ '': '' @ exn_str x)
         | Inr chunks \<Rightarrow> None))"

definition file_chunks :: "'s env \<Rightarrow> int \<Rightarrow> int \<Rightarrow> path \<Rightarrow> document list" where
  "file_chunks e chunk_size chunk_overlap abs_path =
     (case load_chunks e chunk_size chunk_overlap abs_path of
        Inl x \<Rightarrow> []
      | Inr chunks \<Rightarrow> chunks)"

section \<open>Concrete environments\<close>

text \<open>
  A small world to run the two tools in. The working directory is \<^verbatim>\<open>/abs\<close>. The
  files \<^verbatim>\<open>a.txt\<close> and \<^verbatim>\<open>b.txt\<close> hold text and \<^verbatim>\<open>logo.svg\<close> holds a drawing
  written as XML; \<^verbatim>\<open>image.png\<close> exists and
  is no UTF-8 text, so the text loader raises on it; nothing else exists. Every text
  is shorter than a chunk, so the splitter returns the documents as they are. The
  splitter's constructor is langchain's: it raises when the overlap is larger than the
  chunk size. The Redis server and the vector store are the reference ones; the
  store keeps the \<^verbatim>\<open>source_file\<close> metadata of a document as a field of its hash.
\<close>

definition demo_doc :: "path \<Rightarrow> string \<Rightarrow> document" where
  "demo_doc p txt = \<lparr>page_content = txt, metadata = [(''source'', PStr p)]\<rparr>"

definition demo_lay :: "document \<Rightarrow> exn + hash" where
  "demo_lay d =
     (case map_of (metadata d) ''source_file'' of
        Some (PStr p) \<Rightarrow> Inr [(''text'', page_content d), (''source_file'', p)]
      | _ \<Rightarrow> Inr [(''text'', page_content d)])"

definition demo_unlay :: "hash \<Rightarrow> document" where
  "demo_unlay h =
     \<lparr>page_content = (case map_of h ''text'' of Some t \<Rightarrow> t | None \<Rightarrow> []),
      metadata = (case map_of h ''source_file'' of
                    Some p \<Rightarrow> [(''source_file'', PStr p)] | None \<Rightarrow> [])\<rparr>"

definition demo_env :: "store env" where
  "demo_env =
     \<lparr>abspath = (\<lambda>p. if take 1 p = ''/'' then p else ''/abs/'' @ p),
      path_exists = (\<lambda>p. p \<in> set [''/abs/a.txt'', ''/abs/b.txt'', ''/abs/logo.svg'', ''/abs/image.png'']),
      splitter_init = (\<lambda>cs co. if co > cs then Some (Exn ''Got a larger chunk overlap than chunk size'') else None),
      pdf_load = (\<lambda>p. Inl (Exn ''invalid pdf header'')),
      text_load = (\<lambda>p. if p = ''/abs/a.txt'' then Inr [demo_doc p ''alpha'']
                        else if p = ''/abs/b.txt'' then Inr [demo_doc p ''beta'']
                        else if p = ''/abs/logo.svg'' then Inr [demo_doc p ''<svg></svg>'']
                        else Inl (Exn (''Error loading '' @ p))),
      split_documents = (\<lambda>cs co ds. Inr ds),
      redis_keys = mem_keys,
      redis_hgetall = mem_hgetall,
      redis_delete = mem_delete,
      decode_utf8 = Inr,
      json_loads = (\<lambda>s. if s = ''{}'' then Inr (JDict []) else Inl (Exn ''JSONDecodeError'')),
      add_documents = mem_add_documents demo_lay,
      similarity_search = (\<lambda>st q k. Inr (take (nat k) (map (\<lambda>kh. demo_unlay (snd kh)) (filter (\<lambda>kh. is_index_key (fst kh)) st))))\<rparr>"

text \<open>The same world while the Redis server refuses the \<^verbatim>\<open>KEYS\<close> command.\<close>

definition flaky_env :: "store env" where
  "flaky_env = demo_env\<lparr>redis_keys := (\<lambda>st pat. Inl (Exn ''ConnectionError''))\<rparr>"

text \<open>The same world with a splitter whose constructor also refuses equal sizes.\<close>

definition strict_env :: "store env" where
  "strict_env =
     demo_env\<lparr>splitter_init :=
       (\<lambda>cs co. if co \<ge> cs then Some (Exn ''chunk_overlap must be smaller than chunk_size'') else None)\<rparr>"

text \<open>
  Three states of the server: one entry of \<^verbatim>\<open>b.txt\<close>; one entry of \<^verbatim>\<open>a.txt\<close> and one
  of \<^verbatim>\<open>b.txt\<close>; and a hash under the index's prefix whose \<^verbatim>\<open>_metadata_json\<close> is no JSON.
\<close>

definition store_b :: store where
  "store_b = [(''doc_chunks:b1'', [(''text'', ''beta''), (''source_file'', ''/abs/b.txt'')])]"

definition store_ab :: store where
  "store_ab =
     [(''doc_chunks:a1'', [(''text'', ''old alpha''), (''source_file'', ''/abs/a.txt'')]),
      (''doc_chunks:b1'', [(''text'', ''beta''), (''source_file'', ''/abs/b.txt'')])]"

definition store_junk :: store where
  "store_junk = [(''doc_chunks:junk'', [(''_metadata_json'', ''not json'')])]"

text \<open>The same world after \<^verbatim>\<open>a.txt\<close> was edited.\<close>

definition edited_env :: "store env" where
  "edited_env =
     demo_env\<lparr>text_load :=
       (\<lambda>p. if p = ''/abs/a.txt'' then Inr [demo_doc p ''alpha, second edition'']
            else text_load demo_env p)\<rparr>"

text \<open>The same world while the vector store cannot embed.\<close>

definition noembed_env :: "store env" where
  "noembed_env = flaky_env\<lparr>add_documents := (\<lambda>st docs. (Some (Exn ''embedding failed''), st))\<rparr>"

text \<open>The same world while the vector store cannot search.\<close>

definition searchdown_env :: "store env" where
  "searchdown_env = demo_env\<lparr>similarity_search := (\<lambda>st q k. Inl (Exn ''ConnectionError''))\<rparr>"

text \<open>The hash \<^verbatim>\<open>HGETALL\<close> returns for a key of the reference server.\<close>

definition hget :: "store \<Rightarrow> key \<Rightarrow> hash" where
  "hget st k = (case map_of st k of Some h \<Rightarrow> h | None \<Rightarrow> [])"

section \<open>The load pass and the outcome of a call\<close>

text \<open>The definitions that evaluate a call in the concrete environments.\<close>

lemmas demo_defs =
  demo_env_def flaky_env_def strict_env_def noembed_env_def edited_env_def searchdown_env_def store_b_def store_ab_def store_junk_def
  demo_doc_def demo_lay_def demo_unlay_def mem_env_def
  mem_keys_def mem_hgetall_def mem_delete_def mem_add_documents_def fresh_key_def
  save_to_memory_def dedup_path_def dedup_try_def entry_matches_def
  load_chunks_def set_source_def splitext_ext_def basename_def lower_def lower_char_def
  INDEX_NAME_def is_index_key_def Let_def

lemma load_files_ok:
  "\<forall>fp \<in> set fps. file_error e cs co (abspath e fp) = None \<Longrightarrow>
   load_files e cs co fps docs = Inr (docs @ concat (map (\<lambda>fp. file_chunks e cs co (abspath e fp)) fps))"
  by (induction fps arbitrary: docs)
     (auto simp: file_error_def file_chunks_def Let_def split: if_splits sum.splits)

lemma load_files_fail:
  "file_error e cs co (abspath e q) = Some msg \<Longrightarrow>
   \<forall>fp \<in> set pre. file_error e cs co (abspath e fp) = None \<Longrightarrow>
   load_files e cs co (pre @ q # post) docs = Inl msg"
  by (induction pre arbitrary: docs)
     (auto simp: file_error_def file_chunks_def Let_def split: if_splits sum.splits)

lemma first_offending:
  "\<exists>fp \<in> set fps. P fp \<Longrightarrow> \<exists>pre q post. fps = pre @ q # post \<and> P q \<and> (\<forall>fp \<in> set pre. \<not> P fp)"
  by (metis split_list_first_prop)

lemma load_files_Inr_iff:
  "load_files e cs co fps docs = Inr out \<longleftrightarrow>
   (\<forall>fp \<in> set fps. file_error e cs co (abspath e fp) = None) \<and>
   out = docs @ concat (map (\<lambda>fp. file_chunks e cs co (abspath e fp)) fps)"
proof (cases "\<forall>fp \<in> set fps. file_error e cs co (abspath e fp) = None")
  case True
  then show ?thesis using load_files_ok[OF True, of docs] by auto
next
  case False
  then have "\<exists>fp \<in> set fps. file_error e cs co (abspath e fp) \<noteq> None" by blast
  from first_offending[OF this] obtain pre q post where
    f: "fps = pre @ q # post" and q: "file_error e cs co (abspath e q) \<noteq> None"
    and pre: "\<forall>fp \<in> set pre. file_error e cs co (abspath e fp) = None" by auto
  from q obtain msg where "file_error e cs co (abspath e q) = Some msg" by auto
  from load_files_fail[OF this pre] f False show ?thesis by auto
qed

lemma success_msg_not_error:
  "success_msg n \<noteq> ''Error: File not found: '' @ a"
  "success_msg n \<noteq> ''Error processing '' @ b"
  "success_msg n \<noteq> ''Error saving to memory: '' @ c"
  "''Error saving to memory: '' @ c \<noteq> success_msg n"
  by (simp_all add: success_msg_def)

lemma file_error_not_success: "file_error e cs co ap = Some msg \<Longrightarrow> msg \<noteq> success_msg n"
  by (auto simp: file_error_def success_msg_def split: if_splits sum.splits)

lemma mem_env_fields [simp]:
  "abspath (mem_env lay e) = abspath e"
  "path_exists (mem_env lay e) = path_exists e"
  "splitter_init (mem_env lay e) = splitter_init e"
  "pdf_load (mem_env lay e) = pdf_load e"
  "text_load (mem_env lay e) = text_load e"
  "split_documents (mem_env lay e) = split_documents e"
  "decode_utf8 (mem_env lay e) = decode_utf8 e"
  "json_loads (mem_env lay e) = json_loads e"
  "similarity_search (mem_env lay e) = similarity_search e"
  "redis_keys (mem_env lay e) = mem_keys"
  "redis_hgetall (mem_env lay e) = mem_hgetall"
  "redis_delete (mem_env lay e) = mem_delete"
  "add_documents (mem_env lay e) = mem_add_documents lay"
  by (simp_all add: mem_env_def)

lemma mem_env_load_chunks [simp]: "load_chunks (mem_env lay e) = load_chunks e"
  by (intro ext) (simp add: load_chunks_def split: sum.splits)

lemma mem_env_file_error [simp]: "file_error (mem_env lay e) = file_error e"
  by (intro ext) (simp add: file_error_def)

lemma mem_env_file_chunks [simp]: "file_chunks (mem_env lay e) = file_chunks e"
  by (intro ext) (simp add: file_chunks_def)

lemma mem_env_entry_matches [simp]: "entry_matches (mem_env lay e) = entry_matches e"
  by (intro ext) (simp add: entry_matches_def split: sum.splits option.splits pyjson.splits)

lemma mem_env_load_files [simp]: "load_files (mem_env lay e) cs co fps docs = load_files e cs co fps docs"
  by (induction fps arbitrary: docs) (simp_all add: Let_def split: sum.splits)

lemma dedup_path_mem_cases:
  "dedup_path (mem_env lay e) st ap = st \<or>
   (\<exists>del. dedup_path (mem_env lay e) st ap = filter (\<lambda>kh. fst kh \<notin> set del) st)"
  by (auto simp: dedup_path_def dedup_try_def mem_delete_def mem_keys_def split: sum.splits)

lemma dedup_path_mem_subset: "set (dedup_path (mem_env lay e) st ap) \<subseteq> set st"
  using dedup_path_mem_cases[of lay e st ap] by auto

lemma dedup_all_mem_subset: "set (dedup_all (mem_env lay e) st fps) \<subseteq> set st"
proof (induction fps arbitrary: st)
  case Nil
  show ?case by simp
next
  case (Cons fp fps)
  have "set (dedup_all (mem_env lay e) (dedup_path (mem_env lay e) st (abspath e fp)) fps)
          \<subseteq> set (dedup_path (mem_env lay e) st (abspath e fp))"
    by (rule Cons.IH)
  also have "\<dots> \<subseteq> set st" by (rule dedup_path_mem_subset)
  finally show ?case by simp
qed

lemma save_load_error:
  assumes "splitter_init e cs co = None" and "load_files e cs co fps [] = Inl msg"
  shows "save_to_memory e s fps cs co = (Returned msg, dedup_all e s fps)"
  using assms by (simp add: save_to_memory_def)

text \<open>
  With sizes the constructor of the splitter accepts, a listed path that is missing,
  or whose loader raises, or whose documents the splitter raises on, makes the call
  return (it does not raise) the error string of line 94 or line 116 for a listed
  path \<open>q\<close> of that kind, with the canonical path of \<open>q\<close> in it; the state it
  leaves is the one the dedup pass left, so \<^verbatim>\<open>add_documents\<close> was not called; and on
  the reference server the store then holds no pair it did not hold before the call.
\<close>

lemma load_failure_returns_error:
  fixes e :: "store env"
  assumes ctor: "splitter_init e cs co = None"
    and fp: "fp \<in> set fps"
    and bad: "\<not> path_exists e (abspath e fp) \<or>
              (\<exists>x. (if lower (splitext_ext (abspath e fp)) = ''.pdf''
                    then pdf_load e (abspath e fp) else text_load e (abspath e fp)) = Inl x) \<or>
              (\<exists>ds x. (if lower (splitext_ext (abspath e fp)) = ''.pdf''
                       then pdf_load e (abspath e fp) else text_load e (abspath e fp)) = Inr ds \<and>
                      split_documents e cs co ds = Inl x)"
  shows "(\<exists>q \<in> set fps. \<exists>msg.
            ((\<not> path_exists e (abspath e q) \<and> msg = ''Error: File not found: '' @ abspath e q) \<or>
             (\<exists>x. ((if lower (splitext_ext (abspath e q)) = ''.pdf''
                      then pdf_load e (abspath e q) else text_load e (abspath e q)) = Inl x \<or>
                   (\<exists>ds. (if lower (splitext_ext (abspath e q)) = ''.pdf''
                          then pdf_load e (abspath e q) else text_load e (abspath e q)) = Inr ds \<and>
                         split_documents e cs co ds = Inl x)) \<and>
                  msg = ''Error processing '' @ abspath e q @ '': '' @ exn_str x)) \<and>
            save_to_memory e s fps cs co = (Returned msg, dedup_all e s fps)) \<and>
         set (snd (save_to_memory (mem_env lay e) s fps cs co)) \<subseteq> set s"
proof -
  from bad have "file_error e cs co (abspath e fp) \<noteq> None"
    by (auto simp: file_error_def load_chunks_def split: sum.splits if_splits)
  with fp have "\<exists>fp \<in> set fps. file_error e cs co (abspath e fp) \<noteq> None" by blast
  from first_offending[OF this] obtain pre q post where
    f: "fps = pre @ q # post" and q: "file_error e cs co (abspath e q) \<noteq> None"
    and pre: "\<forall>fp \<in> set pre. file_error e cs co (abspath e fp) = None" by auto
  from q obtain msg where msg: "file_error e cs co (abspath e q) = Some msg" by auto
  have lf: "load_files e cs co fps [] = Inl msg"
    unfolding f by (rule load_files_fail[OF msg pre])
  have shape: "(\<not> path_exists e (abspath e q) \<and> msg = ''Error: File not found: '' @ abspath e q) \<or>
             (\<exists>x. ((if lower (splitext_ext (abspath e q)) = ''.pdf''
                      then pdf_load e (abspath e q) else text_load e (abspath e q)) = Inl x \<or>
                   (\<exists>ds. (if lower (splitext_ext (abspath e q)) = ''.pdf''
                          then pdf_load e (abspath e q) else text_load e (abspath e q)) = Inr ds \<and>
                         split_documents e cs co ds = Inl x)) \<and>
                  msg = ''Error processing '' @ abspath e q @ '': '' @ exn_str x)"
  proof (cases "path_exists e (abspath e q)")
    case False
    with msg show ?thesis by (simp add: file_error_def)
  next
    case True
    with msg obtain x where x: "load_chunks e cs co (abspath e q) = Inl x"
      and m: "msg = ''Error processing '' @ abspath e q @ '': '' @ exn_str x"
      by (auto simp: file_error_def split: sum.splits)
    from x have "(if lower (splitext_ext (abspath e q)) = ''.pdf''
                      then pdf_load e (abspath e q) else text_load e (abspath e q)) = Inl x \<or>
                   (\<exists>ds. (if lower (splitext_ext (abspath e q)) = ''.pdf''
                          then pdf_load e (abspath e q) else text_load e (abspath e q)) = Inr ds \<and>
                         split_documents e cs co ds = Inl x)"
      unfolding load_chunks_def by (auto split: sum.splits if_splits)
    with m show ?thesis by blast
  qed
  have "q \<in> set fps" using f by simp
  moreover have "save_to_memory e s fps cs co = (Returned msg, dedup_all e s fps)"
    by (rule save_load_error[OF ctor lf])
  moreover have "set (snd (save_to_memory (mem_env lay e) s fps cs co)) \<subseteq> set s"
  proof -
    have "save_to_memory (mem_env lay e) s fps cs co = (Returned msg, dedup_all (mem_env lay e) s fps)"
      by (rule save_load_error) (simp_all add: ctor lf)
    then show ?thesis by (simp add: dedup_all_mem_subset)
  qed
  ultimately show ?thesis using shape by blast
qed

text \<open>
  The lemma at a file that exists and is unreadable: \<^verbatim>\<open>a.txt\<close> loads, the text loader
  raises on \<^verbatim>\<open>image.png\<close>, and the call returns the string of line 116 for it.
\<close>

lemma load_failure_returns_error_example:
  "splitter_init demo_env 1000 100 = None \<and>
   path_exists demo_env (abspath demo_env ''image.png'') \<and>
   text_load demo_env (abspath demo_env ''image.png'') = Inl (Exn ''Error loading /abs/image.png'') \<and>
   save_to_memory demo_env store_ab [''a.txt'', ''image.png''] 1000 100 =
     (Returned ''Error processing /abs/image.png: Error loading /abs/image.png'',
      [(''doc_chunks:b1'', [(''text'', ''beta''), (''source_file'', ''/abs/b.txt'')])]) \<and>
   set (snd (save_to_memory (mem_env demo_lay demo_env) store_ab [''a.txt'', ''image.png''] 1000 100))
     \<subseteq> set store_ab"
proof -
  have h1: "splitter_init demo_env 1000 100 = None" by (simp add: demo_defs)
  have h2: "''image.png'' \<in> set [''a.txt'', ''image.png'']" by simp
  have ex: "path_exists demo_env (abspath demo_env ''image.png'')" by (simp add: demo_defs)
  have tl: "text_load demo_env (abspath demo_env ''image.png'') = Inl (Exn ''Error loading /abs/image.png'')"
    by (simp add: demo_defs)
  have np: "lower (splitext_ext (abspath demo_env ''image.png'')) \<noteq> ''.pdf''"
    by (simp add: demo_defs)
  have h3: "\<not> path_exists demo_env (abspath demo_env ''image.png'') \<or>
              (\<exists>x. (if lower (splitext_ext (abspath demo_env ''image.png'')) = ''.pdf''
                    then pdf_load demo_env (abspath demo_env ''image.png'')
                    else text_load demo_env (abspath demo_env ''image.png'')) = Inl x) \<or>
              (\<exists>ds x. (if lower (splitext_ext (abspath demo_env ''image.png'')) = ''.pdf''
                       then pdf_load demo_env (abspath demo_env ''image.png'')
                       else text_load demo_env (abspath demo_env ''image.png'')) = Inr ds \<and>
                      split_documents demo_env 1000 100 ds = Inl x)"
    using np tl by simp
  have ev: "save_to_memory demo_env store_ab [''a.txt'', ''image.png''] 1000 100 =
     (Returned ''Error processing /abs/image.png: Error loading /abs/image.png'',
      [(''doc_chunks:b1'', [(''text'', ''beta''), (''source_file'', ''/abs/b.txt'')])])"
    by (simp add: demo_defs)
  from load_failure_returns_error[OF h1 h2 h3, of store_ab demo_lay]
  have "set (snd (save_to_memory (mem_env demo_lay demo_env) store_ab [''a.txt'', ''image.png''] 1000 100))
     \<subseteq> set store_ab" by blast
  with h1 ex tl ev show ?thesis by blast
qed

text \<open>
  C4. A call that lists a missing or an unreadable file does not always return an
  error string: the splitter is built at lines 54 to 56, outside every \<^verbatim>\<open>try\<close>, before
  any path is looked at. With \<open>chunk_size = 10\<close> and \<open>chunk_overlap = 20\<close> the
  constructor raises, and a call that lists a missing file, or an unreadable one,
  ends in that exception instead of returning the string of line 94 or line 116,
  which would name the file; the index is left as it was. The same paths with sizes
  the constructor accepts return the two strings, as every load failure does then
  (\<open>load_failure_returns_error\<close>).
\<close>

theorem refused_sizes_raise_before_load:
  "save_to_memory demo_env store_ab [''missing.txt''] 10 20 =
     (Raised (Exn ''Got a larger chunk overlap than chunk size''), store_ab) \<and>
   save_to_memory demo_env store_ab [''image.png''] 10 20 =
     (Raised (Exn ''Got a larger chunk overlap than chunk size''), store_ab) \<and>
   save_to_memory demo_env store_ab [''missing.txt''] 1000 100 =
     (Returned ''Error: File not found: /abs/missing.txt'', store_ab) \<and>
   save_to_memory demo_env store_ab [''image.png''] 1000 100 =
     (Returned ''Error processing /abs/image.png: Error loading /abs/image.png'', store_ab)"
  by (simp add: demo_defs)

text \<open>
  C6. Whatever the Redis commands and the scan of the dedup pass do, also when they
  raise for every path: once the splitter is built and every file loads, the call
  returns the success message exactly when \<^verbatim>\<open>add_documents\<close> raises nothing, and an
  exception of \<^verbatim>\<open>add_documents\<close> makes the call return the error string of line 123.
  No hypothesis is made on the dedup pass. A \<^verbatim>\<open>KEYS\<close> command that raises, or a scan
  that raises (in \<^verbatim>\<open>HGETALL\<close>, in the decoding, in \<^verbatim>\<open>json.loads\<close> or in
  \<^verbatim>\<open>metadata.get\<close>), ends the dedup of that path with the state as it was, and the
  loop goes on.
\<close>

theorem dedup_failure_not_fatal:
  assumes ctor: "splitter_init e cs co = None"
    and lf: "load_files e cs co fps [] = Inr docs"
  shows "(fst (add_documents e (dedup_all e s fps) docs) = None \<longrightarrow>
            save_to_memory e s fps cs co =
              (Returned (success_msg (length fps)), snd (add_documents e (dedup_all e s fps) docs))) \<and>
         (\<forall>x. fst (add_documents e (dedup_all e s fps) docs) = Some x \<longrightarrow>
            save_to_memory e s fps cs co =
              (Returned (''Error saving to memory: '' @ exn_str x),
               snd (add_documents e (dedup_all e s fps) docs)) \<and>
            fst (save_to_memory e s fps cs co) \<noteq> Returned (success_msg (length fps))) \<and>
         (\<forall>s0 ap x. redis_keys e s0 (INDEX_NAME @ '':*'') = Inl x \<longrightarrow> dedup_path e s0 ap = s0) \<and>
         (\<forall>s0 ap ks x. redis_keys e s0 (INDEX_NAME @ '':*'') = Inr ks \<and> scan_keys e s0 ap ks = Inl x \<longrightarrow>
            dedup_path e s0 ap = s0)"
proof -
  have outcome:
    "(fst (add_documents e (dedup_all e s fps) docs) = None \<longrightarrow>
            save_to_memory e s fps cs co =
              (Returned (success_msg (length fps)), snd (add_documents e (dedup_all e s fps) docs))) \<and>
         (\<forall>x. fst (add_documents e (dedup_all e s fps) docs) = Some x \<longrightarrow>
            save_to_memory e s fps cs co =
              (Returned (''Error saving to memory: '' @ exn_str x),
               snd (add_documents e (dedup_all e s fps) docs)) \<and>
            fst (save_to_memory e s fps cs co) \<noteq> Returned (success_msg (length fps)))"
    using ctor lf success_msg_not_error(4)[of "exn_str x" "length fps" for x]
    by (cases "add_documents e (dedup_all e s fps) docs")
       (auto simp: save_to_memory_def split: option.splits)
  have keys: "\<forall>s0 ap x. redis_keys e s0 (INDEX_NAME @ '':*'') = Inl x \<longrightarrow> dedup_path e s0 ap = s0"
    by (simp add: dedup_path_def dedup_try_def)
  have scan: "\<forall>s0 ap ks x. redis_keys e s0 (INDEX_NAME @ '':*'') = Inr ks \<and> scan_keys e s0 ap ks = Inl x \<longrightarrow>
            dedup_path e s0 ap = s0"
    by (simp add: dedup_path_def dedup_try_def)
  from outcome keys scan show ?thesis by blast
qed

theorem dedup_failure_not_fatal_witness:
  "splitter_init flaky_env 1000 100 = None \<and>
   load_files flaky_env 1000 100 [''a.txt''] [] =
     Inr [\<lparr>page_content = ''alpha'',
           metadata = [(''source'', PStr ''/abs/a.txt''), (''source_file'', PStr ''/abs/a.txt'')]\<rparr>] \<and>
   dedup_try flaky_env store_ab ''/abs/a.txt'' = (Some (Exn ''ConnectionError''), store_ab) \<and>
   fst (save_to_memory flaky_env store_ab [''a.txt''] 1000 100) = Returned (success_msg 1) \<and>
   map snd (snd (save_to_memory flaky_env store_ab [''a.txt''] 1000 100)) =
     map snd store_ab @ [[(''text'', ''alpha''), (''source_file'', ''/abs/a.txt'')]] \<and>
   splitter_init noembed_env 1000 100 = None \<and>
   save_to_memory noembed_env store_ab [''a.txt''] 1000 100 =
     (Returned ''Error saving to memory: embedding failed'', store_ab)"
proof -
  let ?d = "\<lparr>page_content = ''alpha'',
           metadata = [(''source'', PStr ''/abs/a.txt''), (''source_file'', PStr ''/abs/a.txt'')]\<rparr>"
  have h1: "splitter_init flaky_env 1000 100 = None" by (simp add: demo_defs)
  have h2: "load_files flaky_env 1000 100 [''a.txt''] [] = Inr [?d]" by (simp add: demo_defs)
  have h3: "dedup_try flaky_env store_ab ''/abs/a.txt'' = (Some (Exn ''ConnectionError''), store_ab)"
    by (simp add: demo_defs)
  have da: "dedup_all flaky_env store_ab [''a.txt''] = store_ab" by (simp add: demo_defs)
  have ad: "add_documents flaky_env store_ab [?d] =
      (None, store_ab @ [(fresh_key store_ab, [(''text'', ''alpha''), (''source_file'', ''/abs/a.txt'')])])"
    by (simp add: demo_env_def flaky_env_def mem_add_documents_def demo_lay_def)
  have k1: "splitter_init noembed_env 1000 100 = None" by (simp add: demo_defs)
  have k2: "load_files noembed_env 1000 100 [''a.txt''] [] = Inr [?d]" by (simp add: demo_defs)
  have kd: "dedup_all noembed_env store_ab [''a.txt''] = store_ab" by (simp add: demo_defs)
  have ka: "add_documents noembed_env store_ab [?d] = (Some (Exn ''embedding failed''), store_ab)"
    by (simp add: noembed_env_def)
  note t1 = dedup_failure_not_fatal[OF h1 h2, of store_ab, THEN conjunct1]
  note t2 = dedup_failure_not_fatal[OF k1 k2, of store_ab, THEN conjunct2, THEN conjunct1]
  from t1 da ad
  have s1: "save_to_memory flaky_env store_ab [''a.txt''] 1000 100 =
     (Returned (success_msg 1),
      store_ab @ [(fresh_key store_ab, [(''text'', ''alpha''), (''source_file'', ''/abs/a.txt'')])])"
    by simp
  from t2 kd ka
  have s2: "save_to_memory noembed_env store_ab [''a.txt''] 1000 100 =
     (Returned ''Error saving to memory: embedding failed'', store_ab)"
    by simp
  show ?thesis using h1 h2 h3 k1 s1 s2 by simp
qed

lemma zip_upt_blocks:
  "map (\<lambda>(i, doc). result_block i doc) (zip [1..<Suc (length rs)] rs) =
   map (\<lambda>i. result_block (Suc i) (rs ! i)) [0..<length rs]"
  by (intro nth_equalityI) (simp_all del: upt_Suc)

lemma join_hd: "x \<noteq> [] \<Longrightarrow> hd (join sep (x # xs)) = hd x"
  by (cases xs) simp_all

lemma result_block_hd: "result_block i d \<noteq> [] \<and> hd (result_block i d) = CHR ''*''"
  by (simp add: result_block_def Let_def)

lemma recall_results:
  "similarity_search e s query k = Inr results \<Longrightarrow>
   recall_from_memory e s query k =
     (if results = [] then nothing_found
      else join separator (map (\<lambda>i. result_block (Suc i) (results ! i)) [0..<length results]))"
  unfolding recall_from_memory_def zip_upt_blocks by simp

lemma blocks_hd:
  "results \<noteq> [] \<Longrightarrow>
   hd (join separator (map (\<lambda>i. result_block (Suc i) (results ! i)) [0..<length results])) = CHR ''*''"
proof -
  assume "results \<noteq> []"
  then obtain d ds where ds: "results = d # ds" by (cases results) auto
  show ?thesis
    unfolding ds using result_block_hd[of "Suc 0" d]
    by (simp add: upt_conv_Cons join_hd del: upt_Suc)
qed

text \<open>
  C9. \<^verbatim>\<open>recall_from_memory\<close> has three kinds of return, and no string is of two
  kinds. When the search raises \<open>x\<close>, it returns the error string of line 158 with the
  message of \<open>x\<close>. When the search returns no result, it returns the notice of line
  146, which is not empty and is no error string of line 158. Otherwise it returns
  the blocks of the results in the order of the search, the block at position \<open>i\<close>
  (from 0) numbered \<open>i + 1\<close>, joined by the separator, which is not empty; that string
  is neither the notice nor an error string of line 158.
\<close>

theorem recall_output:
  "(\<forall>x. similarity_search e s query k = Inl x \<longrightarrow>
      recall_from_memory e s query k = ''Error recalling from memory: '' @ exn_str x \<and>
      recall_from_memory e s query k \<noteq> nothing_found) \<and>
   (similarity_search e s query k = Inr [] \<longrightarrow>
      recall_from_memory e s query k = nothing_found \<and>
      recall_from_memory e s query k \<noteq> [] \<and>
      (\<forall>m. recall_from_memory e s query k \<noteq> ''Error recalling from memory: '' @ m)) \<and>
   nothing_found \<noteq> [] \<and>
   (\<forall>x. nothing_found \<noteq> ''Error recalling from memory: '' @ exn_str x) \<and>
   (\<forall>results. similarity_search e s query k = Inr results \<and> results \<noteq> [] \<longrightarrow>
      recall_from_memory e s query k =
        join separator (map (\<lambda>i. result_block (Suc i) (results ! i)) [0..<length results]) \<and>
      recall_from_memory e s query k \<noteq> nothing_found \<and>
      (\<forall>m. recall_from_memory e s query k \<noteq> ''Error recalling from memory: '' @ m)) \<and>
   separator \<noteq> []"
proof (intro conjI allI impI)
  show "nothing_found \<noteq> []" by (simp add: nothing_found_def)
  show "nothing_found \<noteq> ''Error recalling from memory: '' @ exn_str x" for x
    by (simp add: nothing_found_def)
  show "separator \<noteq> []" by (simp add: separator_def)
next
  fix x assume x: "similarity_search e s query k = Inl x"
  then show "recall_from_memory e s query k = ''Error recalling from memory: '' @ exn_str x"
    by (simp add: recall_from_memory_def)
  from x show "recall_from_memory e s query k \<noteq> nothing_found"
    by (simp add: recall_from_memory_def nothing_found_def)
next
  assume n: "similarity_search e s query k = Inr []"
  then show "recall_from_memory e s query k = nothing_found"
    by (simp add: recall_from_memory_def)
  from n show "recall_from_memory e s query k \<noteq> []"
    by (simp add: recall_from_memory_def nothing_found_def)
  fix m
  from n show "recall_from_memory e s query k \<noteq> ''Error recalling from memory: '' @ m"
    by (simp add: recall_from_memory_def nothing_found_def)
next
  fix results
  assume r: "similarity_search e s query k = Inr results \<and> results \<noteq> []"
  then show eq: "recall_from_memory e s query k =
        join separator (map (\<lambda>i. result_block (Suc i) (results ! i)) [0..<length results])"
    using recall_results[of e s query k results] by simp
  from r have hd: "hd (recall_from_memory e s query k) = CHR ''*''"
    unfolding eq by (simp add: blocks_hd)
  then show "recall_from_memory e s query k \<noteq> nothing_found"
    by (auto simp: nothing_found_def)
  fix m
  from hd show "recall_from_memory e s query k \<noteq> ''Error recalling from memory: '' @ m"
    by auto
qed

theorem recall_output_witness:
  "similarity_search searchdown_env store_ab ''alpha'' 3 = Inl (Exn ''ConnectionError'') \<and>
   recall_from_memory searchdown_env store_ab ''alpha'' 3 =
     ''Error recalling from memory: ConnectionError'' \<and>
   similarity_search demo_env [] ''alpha'' 3 = Inr [] \<and>
   recall_from_memory demo_env [] ''alpha'' 3 = ''Nothing found in memory matching your query.'' \<and>
   recall_from_memory demo_env store_ab ''alpha'' 3 =
     ''**Result 1**'' @ newline @ ''Source: /abs/a.txt'' @ newline @ newline @ ''Content:'' @ newline
       @ ''old alpha'' @ newline
     @ newline @ ''---'' @ newline
     @ ''**Result 2**'' @ newline @ ''Source: /abs/b.txt'' @ newline @ newline @ ''Content:'' @ newline
       @ ''beta'' @ newline"
proof -
  have h0: "similarity_search searchdown_env store_ab ''alpha'' 3 = Inl (Exn ''ConnectionError'')"
    by (simp add: searchdown_env_def)
  have h1: "similarity_search demo_env [] ''alpha'' 3 = Inr []" by (simp add: demo_defs)
  have h2: "similarity_search demo_env store_ab ''alpha'' 3 =
      Inr [demo_unlay (snd (store_ab ! 0)), demo_unlay (snd (store_ab ! 1))]"
    by (simp add: demo_env_def store_ab_def is_index_key_def INDEX_NAME_def)
  from recall_output[of demo_env "[]" "''alpha''" 3] h1
  have r1: "recall_from_memory demo_env [] ''alpha'' 3 = nothing_found" by blast
  from recall_output[of searchdown_env store_ab "''alpha''" 3] h0
  have r0: "recall_from_memory searchdown_env store_ab ''alpha'' 3 =
      ''Error recalling from memory: '' @ exn_str (Exn ''ConnectionError'')" by blast
  from recall_output[of demo_env store_ab "''alpha''" 3] h2
  have r2: "recall_from_memory demo_env store_ab ''alpha'' 3 =
        result_block (Suc 0) (demo_unlay (snd (store_ab ! 0))) @ separator @
        result_block (Suc (Suc 0)) (demo_unlay (snd (store_ab ! 1)))"
    by simp
  have str: "str_nat (Suc 0) = ''1''" "str_nat (Suc (Suc 0)) = ''2''"
    by (simp_all add: str_nat.simps digit_def)
  show ?thesis
    unfolding r0 r1 r2 using h0 h1
    by (simp add: nothing_found_def result_block_def separator_def
          demo_unlay_def store_ab_def str)
qed

section \<open>The dedup pass on the reference server\<close>

lemma readable_iff: "readable e h \<longleftrightarrow> (\<exists>b. entry_matches e ap h = Inr b)"
  by (auto simp: readable_def entry_matches_def split: option.splits sum.splits pyjson.splits)

lemma not_readable_iff: "\<not> readable e h \<longleftrightarrow> (\<exists>x. entry_matches e ap h = Inl x)"
  by (auto simp: readable_def entry_matches_def split: option.splits sum.splits pyjson.splits)

lemma scan_keys_mem_ok:
  "\<forall>k \<in> set ks. readable e (hget st k) \<Longrightarrow>
   scan_keys (mem_env lay e) st ap ks = Inr (filter (\<lambda>k. entry_matches e ap (hget st k) = Inr True) ks)"
proof (induction ks)
  case Nil
  show ?case by simp
next
  case (Cons k ks)
  from Cons.prems have "readable e (hget st k)" by simp
  then obtain b where b: "entry_matches e ap (hget st k) = Inr b"
    using readable_iff by blast
  from Cons show ?case using b
    by (simp add: mem_hgetall_def hget_def)
qed

lemma scan_keys_mem_fail:
  "\<exists>k \<in> set ks. \<not> readable e (hget st k) \<Longrightarrow> \<exists>x. scan_keys (mem_env lay e) st ap ks = Inl x"
proof (induction ks)
  case Nil
  then show ?case by simp
next
  case (Cons k ks)
  show ?case
  proof (cases "readable e (hget st k)")
    case True
    then obtain b where b: "entry_matches e ap (hget st k) = Inr b"
      using readable_iff by blast
    from True Cons.prems have "\<exists>k \<in> set ks. \<not> readable e (hget st k)" by auto
    from Cons.IH[OF this] obtain x where "scan_keys (mem_env lay e) st ap ks = Inl x" by blast
    then show ?thesis using b by (simp add: mem_hgetall_def hget_def)
  next
    case False
    then obtain x where "entry_matches e ap (hget st k) = Inl x"
      using not_readable_iff by blast
    then show ?thesis by (simp add: mem_hgetall_def hget_def)
  qed
qed

lemma mem_keys_index: "mem_keys st (INDEX_NAME @ '':*'') = Inr (filter is_index_key (map fst st))"
proof -
  have "is_index_key = prefix (INDEX_NAME @ '':'')" by (intro ext) (simp add: is_index_key_def)
  then show ?thesis by (simp add: mem_keys_def INDEX_NAME_def butlast_append)
qed

lemma hget_distinct: "distinct (map fst st) \<Longrightarrow> (k, h) \<in> set st \<Longrightarrow> hget st k = h"
  by (simp add: hget_def)

lemma all_readable_iff:
  "distinct (map fst st) \<Longrightarrow>
   all_readable e st \<longleftrightarrow> (\<forall>k \<in> set (filter is_index_key (map fst st)). readable e (hget st k))"
  by (auto simp: all_readable_def list_all_iff hget_distinct)

lemma dedup_path_mem:
  assumes d: "distinct (map fst st)"
  shows "dedup_path (mem_env lay e) st ap =
           (if all_readable e st then filter (\<lambda>kh. \<not> is_entry_for e ap kh) st else st)"
proof (cases "all_readable e st")
  case True
  let ?ks = "filter is_index_key (map fst st)"
  let ?del = "filter (\<lambda>k. entry_matches e ap (hget st k) = Inr True) ?ks"
  from True have "\<forall>k \<in> set ?ks. readable e (hget st k)"
    using all_readable_iff[OF d] by blast
  then have scan: "scan_keys (mem_env lay e) st ap ?ks = Inr ?del"
    by (rule scan_keys_mem_ok)
  have mem: "fst kh \<in> set ?del \<longleftrightarrow> is_entry_for e ap kh" if "kh \<in> set st" for kh
  proof -
    obtain k h where kh: "kh = (k, h)" by (cases kh)
    with that d have "hget st k = h" by (simp add: hget_distinct)
    moreover have "k \<in> fst ` set st" using that kh by force
    ultimately show ?thesis using kh by (auto simp: is_entry_for_def)
  qed
  have flt: "filter (\<lambda>kh. fst kh \<notin> set ?del) st = filter (\<lambda>kh. \<not> is_entry_for e ap kh) st"
  proof (rule filter_cong[OF refl])
    fix kh assume "kh \<in> set st"
    from mem[OF this] show "(fst kh \<notin> set ?del) = (\<not> is_entry_for e ap kh)" by blast
  qed
  have "?del = [] \<Longrightarrow> filter (\<lambda>kh. fst kh \<notin> set ?del) st = st" by simp
  with flt have nil: "?del = [] \<Longrightarrow> filter (\<lambda>kh. \<not> is_entry_for e ap kh) st = st" by simp
  show ?thesis
    using True scan flt nil
    by (simp add: dedup_path_def dedup_try_def mem_keys_index mem_delete_def)
next
  case False
  let ?ks = "filter is_index_key (map fst st)"
  from False have "\<exists>k \<in> set ?ks. \<not> readable e (hget st k)"
    using all_readable_iff[OF d] by blast
  from scan_keys_mem_fail[OF this] obtain x where
    "scan_keys (mem_env lay e) st ap ?ks = Inl x" by blast
  with False show ?thesis
    by (simp add: dedup_path_def dedup_try_def mem_keys_index)
qed

lemma all_readable_filter: "all_readable e st \<Longrightarrow> all_readable e (filter P st)"
  by (simp add: all_readable_def list_all_iff)

lemma dedup_all_mem:
  "distinct (map fst st) \<Longrightarrow>
   dedup_all (mem_env lay e) st fps =
     (if all_readable e st
      then filter (\<lambda>kh. \<not> (\<exists>fp \<in> set fps. is_entry_for e (abspath e fp) kh)) st else st)"
proof (induction fps arbitrary: st)
  case Nil
  then show ?case by simp
next
  case (Cons fp fps)
  show ?case
  proof (cases "all_readable e st")
    case True
    let ?st1 = "filter (\<lambda>kh. \<not> is_entry_for e (abspath e fp) kh) st"
    have d1: "distinct (map fst ?st1)" using Cons.prems by (simp add: distinct_map_filter)
    have r1: "all_readable e ?st1" using True by (rule all_readable_filter)
    have "dedup_all (mem_env lay e) st (fp # fps) = dedup_all (mem_env lay e) ?st1 fps"
      using True by (simp add: dedup_path_mem[OF Cons.prems])
    also have "\<dots> = filter (\<lambda>kh. \<not> (\<exists>fp \<in> set fps. is_entry_for e (abspath e fp) kh)) ?st1"
      using Cons.IH[OF d1] r1 by simp
    also have "\<dots> = filter (\<lambda>kh. \<not> (\<exists>q \<in> set (fp # fps). is_entry_for e (abspath e q) kh)) st"
      by (simp add: conj_commute)
    finally show ?thesis using True by simp
  next
    case False
    then show ?thesis using Cons by (simp add: dedup_path_mem)
  qed
qed


section \<open>Inserts on the reference vector store\<close>


lemma key_length_bound:
  "kh \<in> set st \<Longrightarrow> length (fst kh) \<le> foldr (\<lambda>kh n. max (length (fst kh)) n) st 0"
  by (induction st) auto

lemma fresh_key_new: "fresh_key st \<notin> fst ` set st"
proof
  assume "fresh_key st \<in> fst ` set st"
  then obtain kh where kh: "kh \<in> set st" and eq: "fst kh = fresh_key st" by auto
  from key_length_bound[OF kh] eq show False by (simp add: fresh_key_def INDEX_NAME_def)
qed

lemma fresh_key_index: "is_index_key (fresh_key st)"
  by (simp add: is_index_key_def fresh_key_def)

lemma mem_insert_shape:
  "\<exists>ks. mem_insert st hs = st @ zip ks hs \<and> length ks = length hs \<and>
        (\<forall>k \<in> set ks. is_index_key k) \<and>
        (distinct (map fst st) \<longrightarrow> distinct (map fst st @ ks))"
proof (induction hs arbitrary: st)
  case Nil
  show ?case by simp
next
  case (Cons h hs)
  let ?st = "st @ [(fresh_key st, h)]"
  from Cons[of ?st] obtain ks where
    ks: "mem_insert ?st hs = ?st @ zip ks hs" "length ks = length hs"
        "\<forall>k \<in> set ks. is_index_key k"
        "distinct (map fst ?st) \<longrightarrow> distinct (map fst ?st @ ks)" by blast
  have "mem_insert st (h # hs) = st @ zip (fresh_key st # ks) (h # hs)"
    using ks(1) by simp
  moreover have "length (fresh_key st # ks) = length (h # hs)" using ks(2) by simp
  moreover have "\<forall>k \<in> set (fresh_key st # ks). is_index_key k"
    using ks(3) fresh_key_index by simp
  moreover have "distinct (map fst st) \<longrightarrow> distinct (map fst st @ fresh_key st # ks)"
    using ks(4) fresh_key_new[of st] by auto
  ultimately show ?case by blast
qed

lemma lay_all_Inr:
  "lay_all lay ds = Inr hs \<Longrightarrow> list_all2 (\<lambda>d h. lay d = Inr h) ds hs"
  by (induction ds arbitrary: hs) (auto split: sum.splits)

lemma load_files_Inl:
  assumes "load_files e cs co fps docs = Inl msg"
  shows "\<exists>q \<in> set fps. file_error e cs co (abspath e q) = Some msg"
proof -
  have "\<not> (\<forall>fp \<in> set fps. file_error e cs co (abspath e fp) = None)"
  proof
    assume "\<forall>fp \<in> set fps. file_error e cs co (abspath e fp) = None"
    from load_files_ok[OF this, of docs] assms show False by simp
  qed
  then have "\<exists>fp \<in> set fps. file_error e cs co (abspath e fp) \<noteq> None" by blast
  from first_offending[OF this] obtain pre q post where
    f: "fps = pre @ q # post" and q: "file_error e cs co (abspath e q) \<noteq> None"
    and pre: "\<forall>fp \<in> set pre. file_error e cs co (abspath e fp) = None" by auto
  from q obtain m where m: "file_error e cs co (abspath e q) = Some m" by auto
  from load_files_fail[OF m pre, of post docs] assms f have "m = msg" by simp
  with m f show ?thesis by auto
qed

lemma save_success_inv:
  assumes "save_to_memory e s fps cs co = (Returned (success_msg n), s')"
  shows "splitter_init e cs co = None \<and>
         load_files e cs co fps [] = Inr (concat (map (\<lambda>fp. file_chunks e cs co (abspath e fp)) fps)) \<and>
         (\<forall>fp \<in> set fps. file_error e cs co (abspath e fp) = None) \<and>
         add_documents e (dedup_all e s fps)
           (concat (map (\<lambda>fp. file_chunks e cs co (abspath e fp)) fps)) = (None, s')"
proof -
  from assms have ctor: "splitter_init e cs co = None"
    by (auto simp: save_to_memory_def split: option.splits)
  show ?thesis
  proof (cases "load_files e cs co fps []")
    case (Inl msg)
    from load_files_Inl[OF Inl] obtain q where "file_error e cs co (abspath e q) = Some msg" by blast
    then have "msg \<noteq> success_msg n" by (rule file_error_not_success)
    with assms ctor Inl show ?thesis by (simp add: save_to_memory_def)
  next
    case (Inr docs)
    then have ok: "\<forall>fp \<in> set fps. file_error e cs co (abspath e fp) = None"
      and docs: "docs = concat (map (\<lambda>fp. file_chunks e cs co (abspath e fp)) fps)"
      using load_files_Inr_iff[of e cs co fps "[]" docs] by auto
    obtain r s2 where add: "add_documents e (dedup_all e s fps) docs = (r, s2)"
      by (cases "add_documents e (dedup_all e s fps) docs")
    have "r = None \<and> s2 = s'"
      using assms ctor Inr add success_msg_not_error(4)
      by (cases r) (auto simp: save_to_memory_def)
    with ctor Inr ok docs add show ?thesis by simp
  qed
qed

lemma map_of_set_source:
  "map_of (metadata (set_source ap d)) ''source_file'' = Some (PStr ap)"
  by (simp add: set_source_def update_conv')

lemma file_chunks_source:
  "d \<in> set (file_chunks e cs co ap) \<Longrightarrow> map_of (metadata d) ''source_file'' = Some (PStr ap)"
  by (auto simp: file_chunks_def load_chunks_def map_of_set_source split: sum.splits if_splits)

lemma save_mem_success:
  assumes "save_to_memory (mem_env lay e) st fps cs co = (Returned (success_msg n), st')"
  shows "\<exists>hs ks. lay_all lay (concat (map (\<lambda>fp. file_chunks e cs co (abspath e fp)) fps)) = Inr hs \<and>
           st' = dedup_all (mem_env lay e) st fps @ zip ks hs \<and> length ks = length hs \<and>
           (\<forall>k \<in> set ks. is_index_key k) \<and>
           (distinct (map fst (dedup_all (mem_env lay e) st fps)) \<longrightarrow>
              distinct (map fst (dedup_all (mem_env lay e) st fps) @ ks))"
proof -
  let ?docs = "concat (map (\<lambda>fp. file_chunks e cs co (abspath e fp)) fps)"
  let ?D = "dedup_all (mem_env lay e) st fps"
  from save_success_inv[OF assms]
  have add: "mem_add_documents lay ?D ?docs = (None, st')" by simp
  then obtain hs where hs: "lay_all lay ?docs = Inr hs" and st': "st' = mem_insert ?D hs"
    by (auto simp: mem_add_documents_def split: sum.splits)
  from mem_insert_shape[of ?D hs] hs st' show ?thesis by blast
qed

lemma layout_is_entry_for:
  "layout_ok e lay \<Longrightarrow> lay d = Inr h \<Longrightarrow> is_index_key k \<Longrightarrow>
   is_entry_for e ap (k, h) \<longleftrightarrow> map_of (metadata d) ''source_file'' = Some (PStr ap)"
  by (simp add: layout_ok_def is_entry_for_def)

lemma layout_readable: "layout_ok e lay \<Longrightarrow> lay d = Inr h \<Longrightarrow> readable e h"
  using readable_iff[of e h "[]"] by (auto simp: layout_ok_def)

lemma count_new_entries:
  assumes l: "layout_ok e lay"
  shows "list_all2 (\<lambda>d h. lay d = Inr h) ds hs \<Longrightarrow> length ks = length hs \<Longrightarrow>
         \<forall>k \<in> set ks. is_index_key k \<Longrightarrow>
         length (filter (is_entry_for e ap) (zip ks hs)) =
         length (filter (\<lambda>d. map_of (metadata d) ''source_file'' = Some (PStr ap)) ds)"
proof (induction ds hs arbitrary: ks rule: list_all2_induct)
  case Nil
  then show ?case by simp
next
  case (Cons d ds h hs)
  from Cons.prems obtain k ks' where ks: "ks = k # ks'" by (cases ks) auto
  with Cons.prems have k: "is_index_key k" and len: "length ks' = length hs"
    and rest: "\<forall>k \<in> set ks'. is_index_key k" by auto
  from Cons.IH[OF len rest] layout_is_entry_for[OF l Cons.hyps(1) k, of ap] ks
  show ?case by simp
qed

lemma all_new_entries:
  assumes l: "layout_ok e lay"
  shows "list_all2 (\<lambda>d h. lay d = Inr h) ds hs \<Longrightarrow> length ks = length hs \<Longrightarrow>
         \<forall>k \<in> set ks. is_index_key k \<Longrightarrow>
         \<forall>d \<in> set ds. map_of (metadata d) ''source_file'' = Some (PStr ap) \<Longrightarrow>
         filter (is_entry_for e ap) (zip ks hs) = zip ks hs"
proof (induction ds hs arbitrary: ks rule: list_all2_induct)
  case Nil
  then show ?case by simp
next
  case (Cons d ds h hs)
  from Cons.prems obtain k ks' where ks: "ks = k # ks'" by (cases ks) auto
  with Cons.prems have k: "is_index_key k" and len: "length ks' = length hs"
    and rest: "\<forall>k \<in> set ks'. is_index_key k"
    and src: "map_of (metadata d) ''source_file'' = Some (PStr ap)"
    and srcs: "\<forall>d \<in> set ds. map_of (metadata d) ''source_file'' = Some (PStr ap)" by auto
  from Cons.IH[OF len rest srcs] layout_is_entry_for[OF l Cons.hyps(1) k, of ap] src ks
  show ?case by simp
qed

lemma new_entries_readable:
  assumes l: "layout_ok e lay"
  shows "list_all2 (\<lambda>d h. lay d = Inr h) ds hs \<Longrightarrow> length ks = length hs \<Longrightarrow>
         all_readable e (zip ks hs)"
proof (induction ds hs arbitrary: ks rule: list_all2_induct)
  case Nil
  then show ?case by (simp add: all_readable_def)
next
  case (Cons d ds h hs)
  from Cons.prems obtain k ks' where ks: "ks = k # ks'" and len: "length ks' = length hs"
    by (cases ks) auto
  from Cons.IH[OF len] layout_readable[OF l Cons.hyps(1)] ks
  show ?case by (simp add: all_readable_def)
qed

lemma all_readable_append:
  "all_readable e (xs @ ys) \<longleftrightarrow> all_readable e xs \<and> all_readable e ys"
  by (simp add: all_readable_def)

lemma distinct_zip_keys:
  "length ks = length hs \<Longrightarrow> distinct (map fst D @ ks) \<Longrightarrow> distinct (map fst (D @ zip ks hs))"
  by simp

lemma save_mem_state:
  assumes d: "distinct (map fst st)" and r: "all_readable e st" and l: "layout_ok e lay"
    and s: "save_to_memory (mem_env lay e) st fps cs co = (Returned (success_msg n), st')"
  shows "\<exists>hs ks. lay_all lay (concat (map (\<lambda>fp. file_chunks e cs co (abspath e fp)) fps)) = Inr hs \<and>
           length ks = length hs \<and> (\<forall>k \<in> set ks. is_index_key k) \<and>
           st' = filter (\<lambda>kh. \<not> (\<exists>fp \<in> set fps. is_entry_for e (abspath e fp) kh)) st @ zip ks hs \<and>
           distinct (map fst st') \<and> all_readable e st'"
proof -
  let ?docs = "concat (map (\<lambda>fp. file_chunks e cs co (abspath e fp)) fps)"
  let ?D = "filter (\<lambda>kh. \<not> (\<exists>fp \<in> set fps. is_entry_for e (abspath e fp) kh)) st"
  have D: "dedup_all (mem_env lay e) st fps = ?D" using dedup_all_mem[OF d] r by simp
  have dD: "distinct (map fst ?D)" using d by (simp add: distinct_map_filter)
  from save_mem_success[OF s] D dD obtain hs ks where
    hs: "lay_all lay ?docs = Inr hs" and st': "st' = ?D @ zip ks hs"
    and len: "length ks = length hs" and idx: "\<forall>k \<in> set ks. is_index_key k"
    and dk: "distinct (map fst ?D @ ks)" by auto
  have "distinct (map fst st')" unfolding st' using len dk by (rule distinct_zip_keys)
  moreover have "all_readable e st'"
    unfolding st' all_readable_append
    using all_readable_filter[OF r] new_entries_readable[OF l lay_all_Inr[OF hs] len] by blast
  ultimately show ?thesis using hs st' len idx by blast
qed

lemma save_one_entries:
  assumes d: "distinct (map fst st)" and r: "all_readable e st" and l: "layout_ok e lay"
    and s: "save_to_memory (mem_env lay e) st [p] cs co = (Returned (success_msg n), st')"
  shows "lay_all lay (file_chunks e cs co (abspath e p)) = Inr (map snd (entries_for e (abspath e p) st')) \<and>
         distinct (map fst st') \<and> all_readable e st'"
proof -
  let ?ap = "abspath e p"
  from save_mem_state[OF d r l s] obtain hs ks where
    hs: "lay_all lay (file_chunks e cs co ?ap) = Inr hs"
    and len: "length ks = length hs" and idx: "\<forall>k \<in> set ks. is_index_key k"
    and st': "st' = filter (\<lambda>kh. \<not> is_entry_for e ?ap kh) st @ zip ks hs"
    and inv: "distinct (map fst st')" "all_readable e st'" by auto
  have src: "\<forall>d \<in> set (file_chunks e cs co ?ap). map_of (metadata d) ''source_file'' = Some (PStr ?ap)"
    by (simp add: file_chunks_source)
  have "entries_for e ?ap st' = zip ks hs"
    unfolding st' entries_for_def
    using all_new_entries[OF l lay_all_Inr[OF hs] len idx src] by simp
  then have "map snd (entries_for e ?ap st') = hs" using len by simp
  with hs inv show ?thesis by simp
qed

lemma codec_readable:
  assumes a: "decode_utf8 e2 = decode_utf8 e1" and b: "json_loads e2 = json_loads e1"
  shows "all_readable e2 st = all_readable e1 st"
  unfolding all_readable_def readable_def a b by (rule refl)

lemma codec_matches:
  assumes a: "decode_utf8 e2 = decode_utf8 e1" and b: "json_loads e2 = json_loads e1"
  shows "entry_matches e2 = entry_matches e1"
  by (intro ext) (simp only: entry_matches_def a b)

lemma codec_layout:
  assumes a: "decode_utf8 e2 = decode_utf8 e1" and b: "json_loads e2 = json_loads e1"
  shows "layout_ok e2 lay = layout_ok e1 lay"
  unfolding layout_ok_def codec_matches[OF a b] by (rule refl)

text \<open>The layout of the concrete vector store is one the scan reads back.\<close>

lemma demo_layout_ok: "layout_ok demo_env demo_lay"
  unfolding layout_ok_def
proof (intro allI impI)
  fix d h ap
  assume "demo_lay d = Inr h"
  then show "entry_matches demo_env ap h =
      Inr (map_of (metadata d) ''source_file'' = Some (PStr ap))"
    by (auto simp: demo_lay_def entry_matches_def demo_env_def split: option.splits pyval.splits)
qed

section \<open>A failed load after the dedup pass\<close>




section \<open>Entries of other paths\<close>

lemma entry_for_unique:
  "is_entry_for e a kh \<Longrightarrow> is_entry_for e b kh \<Longrightarrow> a = b"
  by (auto simp: is_entry_for_def entry_matches_def split: option.splits sum.splits pyjson.splits)

lemma save_mem_any:
  "\<exists>D new. snd (save_to_memory (mem_env lay e) st fps cs co) = D @ new \<and>
     (D = st \<or> D = dedup_all (mem_env lay e) st fps) \<and>
     (distinct (map fst D) \<longrightarrow> distinct (map fst (D @ new)))"
proof (cases "splitter_init e cs co")
  case (Some x)
  then have "snd (save_to_memory (mem_env lay e) st fps cs co) = st @ []"
    by (simp add: save_to_memory_def)
  then show ?thesis by (intro exI[of _ st] exI[of _ "[]"]) simp
next
  case None
  let ?D = "dedup_all (mem_env lay e) st fps"
  show ?thesis
  proof (cases "load_files e cs co fps []")
    case (Inl msg)
    with None have "snd (save_to_memory (mem_env lay e) st fps cs co) = ?D @ []"
      by (simp add: save_to_memory_def)
    then show ?thesis by (intro exI[of _ ?D] exI[of _ "[]"]) simp
  next
    case (Inr docs)
    show ?thesis
    proof (cases "lay_all lay docs")
      case (Inl x)
      with None Inr have "snd (save_to_memory (mem_env lay e) st fps cs co) = ?D @ []"
        by (simp add: save_to_memory_def mem_add_documents_def)
      then show ?thesis by (intro exI[of _ ?D] exI[of _ "[]"]) simp
    next
      case (Inr hs)
      from mem_insert_shape[of ?D hs] obtain ks where
        ks: "mem_insert ?D hs = ?D @ zip ks hs" "length ks = length hs"
            "distinct (map fst ?D) \<longrightarrow> distinct (map fst ?D @ ks)" by blast
      from None \<open>load_files e cs co fps [] = Inr docs\<close> Inr ks(1)
      have "snd (save_to_memory (mem_env lay e) st fps cs co) = ?D @ zip ks hs"
        by (simp add: save_to_memory_def mem_add_documents_def)
      moreover have "distinct (map fst ?D) \<longrightarrow> distinct (map fst (?D @ zip ks hs))"
        using ks(2,3) by simp
      ultimately show ?thesis by (intro exI[of _ ?D] exI[of _ "zip ks hs"]) simp
    qed
  qed
qed

text \<open>
  C7. On the reference server with distinct keys, whatever a call of \<^verbatim>\<open>save_to_memory\<close>
  returns: every pair of the old store that the new store lacks is an entry of the
  canonical path of a listed file; so an entry of a path \<open>B\<close> that is the canonical
  path of no listed file is still in the store, under its key and with its hash; and
  the keys of the new store are distinct, so no new entry took the key of an old one.
\<close>

theorem dedup_isolation:
  fixes e :: "store env"
  assumes d: "distinct (map fst st)"
    and nb: "\<forall>fp \<in> set fps. abspath e fp \<noteq> B"
  shows "(\<forall>kh \<in> set st. kh \<notin> set (snd (save_to_memory (mem_env lay e) st fps cs co)) \<longrightarrow>
            (\<exists>fp \<in> set fps. is_entry_for e (abspath e fp) kh)) \<and>
         (\<forall>kh \<in> set st. is_entry_for e B kh \<longrightarrow>
            kh \<in> set (snd (save_to_memory (mem_env lay e) st fps cs co))) \<and>
         distinct (map fst (snd (save_to_memory (mem_env lay e) st fps cs co)))"
proof -
  let ?st' = "snd (save_to_memory (mem_env lay e) st fps cs co)"
  from save_mem_any[of lay e st fps cs co] obtain D new where
    st': "?st' = D @ new" and D: "D = st \<or> D = dedup_all (mem_env lay e) st fps"
    and dn: "distinct (map fst D) \<longrightarrow> distinct (map fst (D @ new))" by blast
  have Dcases: "D = st \<or> D = filter (\<lambda>kh. \<not> (\<exists>fp \<in> set fps. is_entry_for e (abspath e fp) kh)) st"
    using D dedup_all_mem[OF d, of lay e fps] by (auto split: if_splits)
  have dD: "distinct (map fst D)" using Dcases d by (auto simp: distinct_map_filter)
  have frame: "\<exists>fp \<in> set fps. is_entry_for e (abspath e fp) kh"
    if "kh \<in> set st" "kh \<notin> set ?st'" for kh
    using that Dcases unfolding st' by auto
  have keepB: "kh \<in> set ?st'" if "kh \<in> set st" "is_entry_for e B kh" for kh
  proof (rule ccontr)
    assume "kh \<notin> set ?st'"
    from frame[OF that(1) this] obtain fp where fp: "fp \<in> set fps" "is_entry_for e (abspath e fp) kh"
      by blast
    from entry_for_unique[OF fp(2) that(2)] fp(1) nb show False by blast
  qed
  have "distinct (map fst ?st')" unfolding st' using dn dD by blast
  with frame keepB show ?thesis by blast
qed

theorem dedup_isolation_witness:
  "distinct (map fst store_ab) \<and>
   abspath demo_env ''a.txt'' \<noteq> ''/abs/b.txt'' \<and>
   is_entry_for demo_env ''/abs/b.txt''
     (''doc_chunks:b1'', [(''text'', ''beta''), (''source_file'', ''/abs/b.txt'')]) \<and>
   (''doc_chunks:b1'', [(''text'', ''beta''), (''source_file'', ''/abs/b.txt'')]) \<in> set store_ab \<and>
   (''doc_chunks:b1'', [(''text'', ''beta''), (''source_file'', ''/abs/b.txt'')])
     \<in> set (snd (save_to_memory (mem_env demo_lay demo_env) store_ab [''a.txt''] 1000 100)) \<and>
   snd (save_to_memory (mem_env demo_lay demo_env) store_ab [''a.txt''] 1000 100) =
     [(''doc_chunks:b1'', [(''text'', ''beta''), (''source_file'', ''/abs/b.txt'')]),
      (''doc_chunks:000'', [(''text'', ''alpha''), (''source_file'', ''/abs/a.txt'')])]"
proof -
  let ?b = "(''doc_chunks:b1'', [(''text'', ''beta''), (''source_file'', ''/abs/b.txt'')])"
  have d: "distinct (map fst store_ab)" by (simp add: store_ab_def)
  have nb: "\<forall>fp \<in> set [''a.txt'']. abspath demo_env fp \<noteq> ''/abs/b.txt''"
    by (simp add: demo_env_def)
  have b: "is_entry_for demo_env ''/abs/b.txt'' ?b"
    by (simp add: is_entry_for_def is_index_key_def INDEX_NAME_def entry_matches_def demo_env_def)
  have m: "?b \<in> set store_ab" by (simp add: store_ab_def)
  from dedup_isolation[OF d nb, of demo_lay 1000 100] m b
  have k: "?b \<in> set (snd (save_to_memory (mem_env demo_lay demo_env) store_ab [''a.txt''] 1000 100))"
    by blast
  have ev: "snd (save_to_memory (mem_env demo_lay demo_env) store_ab [''a.txt''] 1000 100) =
     [?b, (''doc_chunks:000'', [(''text'', ''alpha''), (''source_file'', ''/abs/a.txt'')])]"
    by (simp add: demo_defs)
  show ?thesis using d nb b m k ev by simp
qed

section \<open>A path listed more than once\<close>

lemma filter_source_chunks:
  "filter (\<lambda>d. map_of (metadata d) ''source_file'' = Some (PStr ap)) (file_chunks e cs co a) =
     (if a = ap then file_chunks e cs co a else [])"
proof -
  have "\<forall>d \<in> set (file_chunks e cs co a).
          (map_of (metadata d) ''source_file'' = Some (PStr ap)) = (a = ap)"
    by (auto simp: file_chunks_source)
  then show ?thesis by (simp add: filter_True filter_False cong: filter_cong)
qed

lemma count_source_docs:
  "length (filter (\<lambda>d. map_of (metadata d) ''source_file'' = Some (PStr ap))
             (concat (map (\<lambda>fp. file_chunks e cs co (abspath e fp)) fps))) =
   length (filter (\<lambda>fp. abspath e fp = ap) fps) * length (file_chunks e cs co ap)"
  by (induction fps) (simp_all add: filter_source_chunks)

text \<open>
  C10. On the reference server, with a vector store whose layout the scan reads back:
  the store after a successful call is the store the dedup pass left, which holds
  only pairs of the old store, followed by the new entries; and the new entries of a
  canonical path are as many as the chunks of the file times the occurrences of the
  path in \<open>file_paths\<close>. A path listed twice has its chunks in the index twice.
\<close>

theorem chunks_inserted_per_occurrence:
  fixes e :: "store env"
  assumes l: "layout_ok e lay"
    and s: "save_to_memory (mem_env lay e) st fps cs co = (Returned (success_msg (length fps)), st')"
  shows "\<exists>new. st' = dedup_all (mem_env lay e) st fps @ new \<and>
           set (dedup_all (mem_env lay e) st fps) \<subseteq> set st \<and>
           length (entries_for e ap new) =
             length (filter (\<lambda>fp. abspath e fp = ap) fps) * length (file_chunks e cs co ap)"
proof -
  let ?docs = "concat (map (\<lambda>fp. file_chunks e cs co (abspath e fp)) fps)"
  from save_mem_success[OF s] obtain hs ks where
    hs: "lay_all lay ?docs = Inr hs"
    and st': "st' = dedup_all (mem_env lay e) st fps @ zip ks hs"
    and len: "length ks = length hs" and idx: "\<forall>k \<in> set ks. is_index_key k" by blast
  have "length (entries_for e ap (zip ks hs)) =
        length (filter (\<lambda>d. map_of (metadata d) ''source_file'' = Some (PStr ap)) ?docs)"
    unfolding entries_for_def by (rule count_new_entries[OF l lay_all_Inr[OF hs] len idx])
  then have "length (entries_for e ap (zip ks hs)) =
        length (filter (\<lambda>fp. abspath e fp = ap) fps) * length (file_chunks e cs co ap)"
    by (simp add: count_source_docs)
  with st' dedup_all_mem_subset[of lay e st fps] show ?thesis by blast
qed

theorem chunks_inserted_per_occurrence_witness:
  "layout_ok demo_env demo_lay \<and>
   save_to_memory (mem_env demo_lay demo_env) store_ab [''a.txt'', ''a.txt''] 1000 100 =
     (Returned (success_msg 2),
      [(''doc_chunks:b1'', [(''text'', ''beta''), (''source_file'', ''/abs/b.txt'')]),
       (''doc_chunks:000'', [(''text'', ''alpha''), (''source_file'', ''/abs/a.txt'')]),
       (''doc_chunks:0000'', [(''text'', ''alpha''), (''source_file'', ''/abs/a.txt'')])]) \<and>
   dedup_all (mem_env demo_lay demo_env) store_ab [''a.txt'', ''a.txt''] =
     [(''doc_chunks:b1'', [(''text'', ''beta''), (''source_file'', ''/abs/b.txt'')])] \<and>
   length (filter (\<lambda>fp. abspath demo_env fp = ''/abs/a.txt'') [''a.txt'', ''a.txt''])
     * length (file_chunks demo_env 1000 100 ''/abs/a.txt'') = 2 \<and>
   length (entries_for demo_env ''/abs/a.txt''
     [(''doc_chunks:000'', [(''text'', ''alpha''), (''source_file'', ''/abs/a.txt'')]),
      (''doc_chunks:0000'', [(''text'', ''alpha''), (''source_file'', ''/abs/a.txt'')])]) = 2"
proof -
  let ?b = "(''doc_chunks:b1'', [(''text'', ''beta''), (''source_file'', ''/abs/b.txt'')])"
  let ?n1 = "(''doc_chunks:000'', [(''text'', ''alpha''), (''source_file'', ''/abs/a.txt'')])"
  let ?n2 = "(''doc_chunks:0000'', [(''text'', ''alpha''), (''source_file'', ''/abs/a.txt'')])"
  have s: "save_to_memory (mem_env demo_lay demo_env) store_ab [''a.txt'', ''a.txt''] 1000 100 =
     (Returned (success_msg (length [''a.txt'', ''a.txt''])), [?b, ?n1, ?n2])"
    by (simp add: demo_defs)
  have dd: "dedup_all (mem_env demo_lay demo_env) store_ab [''a.txt'', ''a.txt''] = [?b]"
    by (simp add: demo_defs)
  from chunks_inserted_per_occurrence[OF demo_layout_ok s, of "''/abs/a.txt''"] dd
  have "length (entries_for demo_env ''/abs/a.txt'' [?n1, ?n2]) =
        length (filter (\<lambda>fp. abspath demo_env fp = ''/abs/a.txt'') [''a.txt'', ''a.txt''])
          * length (file_chunks demo_env 1000 100 ''/abs/a.txt'')"
    by simp
  moreover have "length (entries_for demo_env ''/abs/a.txt'' [?n1, ?n2]) = 2"
    by (simp add: entries_for_def is_entry_for_def is_index_key_def INDEX_NAME_def
          entry_matches_def demo_env_def)
  ultimately show ?thesis using s dd demo_layout_ok by (simp add: numeral_2_eq_2)
qed

section \<open>Saving a path again\<close>

lemma list_all2_right_member:
  "list_all2 P xs ys \<Longrightarrow> y \<in> set ys \<Longrightarrow> \<exists>x \<in> set xs. P x y"
  by (induction xs ys rule: list_all2_induct) auto

lemma demo_keeps_content: "lay_keeps_content demo_lay"
proof -
  have "map_of h ''text'' = Some (page_content d)" if "demo_lay d = Inr h" for d h
    using that by (auto simp: demo_lay_def split: option.splits pyval.splits)
  then show ?thesis unfolding lay_keeps_content_def by (metis option.inject)
qed

text \<open>
  C1, as amended. On the reference server, whose commands raise nothing, from a store
  with distinct keys in which every hash under the index's prefix is readable (so
  that no scan of the dedup pass raises), and with a vector store whose layout the
  scan reads back: let \<open>p\<close> be saved, then saved again, perhaps after the file or the
  chunk sizes changed (the environment \<open>e2\<close>, with the same decoder and JSON reader
  as \<open>e1\<close>), both calls returning success. Then the entries of the canonical path of
  \<open>p\<close> after the second save are the layouts of the chunks of the second load, in
  order and nothing else: as many as that load has chunks, and the same hashes as a
  single save in \<open>e2\<close> from the first store leaves. If moreover the hash of a document
  determines its text and the search returns only stored documents, then
  \<^verbatim>\<open>recall_from_memory\<close> after the second save prints the blocks of the search
  results, and every result whose \<^verbatim>\<open>source_file\<close> is the canonical path of \<open>p\<close> has
  the text of a chunk of the second load.
\<close>

theorem resave_replaces_entries:
  fixes e1 e2 :: "store env"
  assumes d: "distinct (map fst st)" and r: "all_readable e1 st" and l: "layout_ok e1 lay"
    and c: "decode_utf8 e2 = decode_utf8 e1" "json_loads e2 = json_loads e1"
    and s1: "save_to_memory (mem_env lay e1) st [p] cs1 co1 = (Returned (success_msg 1), st1)"
    and s2: "save_to_memory (mem_env lay e2) st1 [p] cs2 co2 = (Returned (success_msg 1), st2)"
    and s3: "save_to_memory (mem_env lay e2) st [p] cs2 co2 = (Returned (success_msg 1), st3)"
  shows "lay_all lay (file_chunks e2 cs2 co2 (abspath e2 p)) =
           Inr (map snd (entries_for e2 (abspath e2 p) st2)) \<and>
         map snd (entries_for e2 (abspath e2 p) st2) = map snd (entries_for e2 (abspath e2 p) st3) \<and>
         length (entries_for e2 (abspath e2 p) st2) = length (file_chunks e2 cs2 co2 (abspath e2 p)) \<and>
         (lay_keeps_content lay \<and> search_from_store e2 lay st2 \<longrightarrow>
            (\<forall>q k rs. similarity_search e2 st2 q k = Inr rs \<longrightarrow>
               recall_from_memory (mem_env lay e2) st2 q k =
                 (if rs = [] then nothing_found
                  else join separator (map (\<lambda>i. result_block (Suc i) (rs ! i)) [0..<length rs])) \<and>
               (\<forall>d \<in> set rs. map_of (metadata d) ''source_file'' = Some (PStr (abspath e2 p)) \<longrightarrow>
                  page_content d \<in> page_content ` set (file_chunks e2 cs2 co2 (abspath e2 p)))))"
proof -
  let ?ap = "abspath e2 p"
  let ?chunks = "file_chunks e2 cs2 co2 ?ap"
  from save_one_entries[OF d r l s1] have d1: "distinct (map fst st1)" and r1: "all_readable e1 st1"
    by auto
  have r1': "all_readable e2 st1" using r1 codec_readable[OF c] by simp
  have r': "all_readable e2 st" using r codec_readable[OF c] by simp
  have l': "layout_ok e2 lay" using l codec_layout[OF c] by simp
  from save_one_entries[OF d1 r1' l' s2]
  have a: "lay_all lay ?chunks = Inr (map snd (entries_for e2 ?ap st2))" by simp
  from save_one_entries[OF d r' l' s3]
  have b: "lay_all lay ?chunks = Inr (map snd (entries_for e2 ?ap st3))" by simp
  from a b have eq: "map snd (entries_for e2 ?ap st2) = map snd (entries_for e2 ?ap st3)"
    by simp
  from list_all2_lengthD[OF lay_all_Inr[OF a]]
  have len: "length (entries_for e2 ?ap st2) = length ?chunks" by simp
  have rec: "recall_from_memory (mem_env lay e2) st2 q k =
                 (if rs = [] then nothing_found
                  else join separator (map (\<lambda>i. result_block (Suc i) (rs ! i)) [0..<length rs])) \<and>
               (\<forall>d \<in> set rs. map_of (metadata d) ''source_file'' = Some (PStr ?ap) \<longrightarrow>
                  page_content d \<in> page_content ` set ?chunks)"
    if kc: "lay_keeps_content lay" and fs: "search_from_store e2 lay st2"
      and sr: "similarity_search e2 st2 q k = Inr rs" for q k rs
  proof (intro conjI ballI impI)
    show "recall_from_memory (mem_env lay e2) st2 q k =
                 (if rs = [] then nothing_found
                  else join separator (map (\<lambda>i. result_block (Suc i) (rs ! i)) [0..<length rs]))"
      by (rule recall_results) (simp add: sr)
  next
    fix x assume x: "x \<in> set rs"
      and src: "map_of (metadata x) ''source_file'' = Some (PStr ?ap)"
    from fs sr x obtain kh where kh: "kh \<in> set st2" and idx: "is_index_key (fst kh)"
      and lx: "lay x = Inr (snd kh)"
      unfolding search_from_store_def by blast
    have "is_entry_for e2 ?ap (fst kh, snd kh)"
      using layout_is_entry_for[OF l' lx idx, of ?ap] src by simp
    with kh have "kh \<in> set (entries_for e2 ?ap st2)" by (simp add: entries_for_def)
    then have "snd kh \<in> set (map snd (entries_for e2 ?ap st2))" by force
    from list_all2_right_member[OF lay_all_Inr[OF a] this]
    obtain ch where ch: "ch \<in> set ?chunks" and lc: "lay ch = Inr (snd kh)" by blast
    from kc lx lc have "page_content x = page_content ch"
      unfolding lay_keeps_content_def by blast
    with ch show "page_content x \<in> page_content ` set ?chunks" by blast
  qed
  from a eq len rec show ?thesis by blast
qed

theorem resave_replaces_entries_witness:
  "distinct (map fst store_ab) \<and> all_readable demo_env store_ab \<and> layout_ok demo_env demo_lay \<and>
   decode_utf8 edited_env = decode_utf8 demo_env \<and> json_loads edited_env = json_loads demo_env \<and>
   save_to_memory (mem_env demo_lay demo_env) store_ab [''a.txt''] 1000 100 =
     (Returned (success_msg 1),
      [(''doc_chunks:b1'', [(''text'', ''beta''), (''source_file'', ''/abs/b.txt'')]),
       (''doc_chunks:000'', [(''text'', ''alpha''), (''source_file'', ''/abs/a.txt'')])]) \<and>
   save_to_memory (mem_env demo_lay edited_env)
     [(''doc_chunks:b1'', [(''text'', ''beta''), (''source_file'', ''/abs/b.txt'')]),
      (''doc_chunks:000'', [(''text'', ''alpha''), (''source_file'', ''/abs/a.txt'')])]
     [''a.txt''] 1000 100 =
     (Returned (success_msg 1),
      [(''doc_chunks:b1'', [(''text'', ''beta''), (''source_file'', ''/abs/b.txt'')]),
       (''doc_chunks:000'', [(''text'', ''alpha, second edition''), (''source_file'', ''/abs/a.txt'')])]) \<and>
   save_to_memory (mem_env demo_lay edited_env) store_ab [''a.txt''] 1000 100 =
     (Returned (success_msg 1),
      [(''doc_chunks:b1'', [(''text'', ''beta''), (''source_file'', ''/abs/b.txt'')]),
       (''doc_chunks:000'', [(''text'', ''alpha, second edition''), (''source_file'', ''/abs/a.txt'')])]) \<and>
   map snd (entries_for edited_env ''/abs/a.txt''
     [(''doc_chunks:b1'', [(''text'', ''beta''), (''source_file'', ''/abs/b.txt'')]),
      (''doc_chunks:000'', [(''text'', ''alpha, second edition''), (''source_file'', ''/abs/a.txt'')])]) =
     [[(''text'', ''alpha, second edition''), (''source_file'', ''/abs/a.txt'')]] \<and>
   length (file_chunks edited_env 1000 100 ''/abs/a.txt'') = 1 \<and>
   lay_keeps_content demo_lay \<and>
   search_from_store edited_env demo_lay
     [(''doc_chunks:b1'', [(''text'', ''beta''), (''source_file'', ''/abs/b.txt'')]),
      (''doc_chunks:000'', [(''text'', ''alpha, second edition''), (''source_file'', ''/abs/a.txt'')])] \<and>
   page_content ` set (file_chunks edited_env 1000 100 ''/abs/a.txt'') = {''alpha, second edition''} \<and>
   recall_from_memory (mem_env demo_lay edited_env)
     [(''doc_chunks:b1'', [(''text'', ''beta''), (''source_file'', ''/abs/b.txt'')]),
      (''doc_chunks:000'', [(''text'', ''alpha, second edition''), (''source_file'', ''/abs/a.txt'')])]
     ''alpha'' 3 =
     ''**Result 1**'' @ newline @ ''Source: /abs/b.txt'' @ newline @ newline @ ''Content:'' @ newline
       @ ''beta'' @ newline
     @ newline @ ''---'' @ newline
     @ ''**Result 2**'' @ newline @ ''Source: /abs/a.txt'' @ newline @ newline @ ''Content:'' @ newline
       @ ''alpha, second edition'' @ newline"
proof -
  let ?hb = "[(''text'', ''beta''), (''source_file'', ''/abs/b.txt'')]"
  let ?b = "(''doc_chunks:b1'', ?hb)"
  let ?h2 = "[(''text'', ''alpha, second edition''), (''source_file'', ''/abs/a.txt'')]"
  let ?st1 = "[?b, (''doc_chunks:000'', [(''text'', ''alpha''), (''source_file'', ''/abs/a.txt'')])]"
  let ?st2 = "[?b, (''doc_chunks:000'', ?h2)]"
  let ?rs = "[demo_unlay ?hb, demo_unlay ?h2]"
  have d: "distinct (map fst store_ab)" by (simp add: store_ab_def)
  have r: "all_readable demo_env store_ab"
    by (simp add: all_readable_def readable_def store_ab_def demo_env_def)
  have c: "decode_utf8 edited_env = decode_utf8 demo_env" "json_loads edited_env = json_loads demo_env"
    by (simp_all add: edited_env_def)
  have s1: "save_to_memory (mem_env demo_lay demo_env) store_ab [''a.txt''] 1000 100 =
      (Returned (success_msg 1), ?st1)"
    by (simp add: demo_defs)
  have s2: "save_to_memory (mem_env demo_lay edited_env) ?st1 [''a.txt''] 1000 100 =
      (Returned (success_msg 1), ?st2)"
    by (simp add: demo_defs)
  have s3: "save_to_memory (mem_env demo_lay edited_env) store_ab [''a.txt''] 1000 100 =
      (Returned (success_msg 1), ?st2)"
    by (simp add: demo_defs)
  have ap: "abspath edited_env ''a.txt'' = ''/abs/a.txt''" by (simp add: demo_defs)
  have fc: "file_chunks edited_env 1000 100 ''/abs/a.txt'' =
      [\<lparr>page_content = ''alpha, second edition'',
        metadata = [(''source'', PStr ''/abs/a.txt''), (''source_file'', PStr ''/abs/a.txt'')]\<rparr>]"
    by (simp add: file_chunks_def demo_defs)
  have la: "lay_all demo_lay (file_chunks edited_env 1000 100 ''/abs/a.txt'') = Inr [?h2]"
    unfolding fc by (simp add: demo_lay_def)
  have sr: "similarity_search edited_env ?st2 q k = Inr (take (nat k) ?rs)" for q k
    by (simp add: edited_env_def demo_env_def is_index_key_def INDEX_NAME_def)
  have lb: "demo_lay (demo_unlay ?hb) = Inr ?hb" and l2: "demo_lay (demo_unlay ?h2) = Inr ?h2"
    by (simp_all add: demo_lay_def demo_unlay_def)
  have fs: "search_from_store edited_env demo_lay ?st2"
    unfolding search_from_store_def
  proof (intro allI impI ballI)
    fix q k rs x
    assume "similarity_search edited_env ?st2 q k = Inr rs" and x: "x \<in> set rs"
    with sr[of q k] have "x \<in> set (take (nat k) ?rs)" by simp
    then have "x \<in> set ?rs" by (rule in_set_takeD)
    then have "x = demo_unlay ?hb \<or> x = demo_unlay ?h2" by simp
    then show "\<exists>kh \<in> set ?st2. is_index_key (fst kh) \<and> demo_lay x = Inr (snd kh)"
      using lb l2 by (auto simp: is_index_key_def INDEX_NAME_def)
  qed
  have sr3: "similarity_search edited_env ?st2 ''alpha'' 3 = Inr ?rs"
    using sr[of "''alpha''" 3] by simp
  note t = resave_replaces_entries[OF d r demo_layout_ok c s1 s2 s3]
  from t ap la
  have m: "map snd (entries_for edited_env ''/abs/a.txt'' ?st2) = [?h2]"
    and n: "length (entries_for edited_env ''/abs/a.txt'' ?st2) =
         length (file_chunks edited_env 1000 100 ''/abs/a.txt'')"
    by simp_all
  from arg_cong[OF m, of length] n
  have one: "length (file_chunks edited_env 1000 100 ''/abs/a.txt'') = 1" by simp
  from t demo_keeps_content fs sr3
  have rc: "recall_from_memory (mem_env demo_lay edited_env) ?st2 ''alpha'' 3 =
      (if ?rs = [] then nothing_found
       else join separator (map (\<lambda>i. result_block (Suc i) (?rs ! i)) [0..<length ?rs]))"
    by blast
  have str: "str_nat (Suc 0) = ''1''" "str_nat (Suc (Suc 0)) = ''2''"
    by (simp_all add: str_nat.simps digit_def)
  have rc': "recall_from_memory (mem_env demo_lay edited_env) ?st2 ''alpha'' 3 =
     ''**Result 1**'' @ newline @ ''Source: /abs/b.txt'' @ newline @ newline @ ''Content:'' @ newline
       @ ''beta'' @ newline
     @ newline @ ''---'' @ newline
     @ ''**Result 2**'' @ newline @ ''Source: /abs/a.txt'' @ newline @ newline @ ''Content:'' @ newline
       @ ''alpha, second edition'' @ newline"
    unfolding rc
    by (simp add: upt_conv_Cons result_block_def separator_def demo_unlay_def str del: upt_Suc)
  have pc: "page_content ` set (file_chunks edited_env 1000 100 ''/abs/a.txt'') = {''alpha, second edition''}"
    unfolding fc by simp
  show ?thesis
    using d r demo_layout_ok c s1 s2 s3 m one demo_keeps_content fs pc rc' by simp
qed

text \<open>
  C1 as stated fails where the dedup pass fails. The server holds one hash under the
  index's prefix whose \<^verbatim>\<open>_metadata_json\<close> is no JSON: \<^verbatim>\<open>json.loads\<close> raises in every
  scan (line 77), line 83 swallows it, and nothing is deleted. Both saves of \<^verbatim>\<open>a.txt\<close>
  return success; the first leaves one entry of \<^verbatim>\<open>/abs/a.txt\<close>, the second two.
\<close>

theorem resave_duplicates_counterexample:
  "fst (save_to_memory demo_env store_junk [''a.txt''] 1000 100) = Returned (success_msg 1) \<and>
   fst (save_to_memory demo_env
          (snd (save_to_memory demo_env store_junk [''a.txt''] 1000 100))
          [''a.txt''] 1000 100) = Returned (success_msg 1) \<and>
   length (entries_for demo_env (abspath demo_env ''a.txt'')
             (snd (save_to_memory demo_env store_junk [''a.txt''] 1000 100))) = 1 \<and>
   length (entries_for demo_env (abspath demo_env ''a.txt'')
             (snd (save_to_memory demo_env
                     (snd (save_to_memory demo_env store_junk [''a.txt''] 1000 100))
                     [''a.txt''] 1000 100))) = 2"
proof -
  let ?j = "(''doc_chunks:junk'', [(''_metadata_json'', ''not json'')])"
  let ?h = "[(''text'', ''alpha''), (''source_file'', ''/abs/a.txt'')]"
  have s1: "save_to_memory demo_env store_junk [''a.txt''] 1000 100 =
      (Returned (success_msg 1), [?j, (''doc_chunks:00000'', ?h)])"
    by (simp add: demo_defs)
  have s2: "save_to_memory demo_env [?j, (''doc_chunks:00000'', ?h)] [''a.txt''] 1000 100 =
      (Returned (success_msg 1), [?j, (''doc_chunks:00000'', ?h), (''doc_chunks:000000'', ?h)])"
    by (simp add: demo_defs)
  have ap: "abspath demo_env ''a.txt'' = ''/abs/a.txt''" by (simp add: demo_defs)
  have e1: "length (entries_for demo_env ''/abs/a.txt'' [?j, (''doc_chunks:00000'', ?h)]) = 1"
    by (simp add: entries_for_def is_entry_for_def is_index_key_def INDEX_NAME_def
          entry_matches_def demo_env_def)
  have e2: "length (entries_for demo_env ''/abs/a.txt''
              [?j, (''doc_chunks:00000'', ?h), (''doc_chunks:000000'', ?h)]) = 2"
    by (simp add: entries_for_def is_entry_for_def is_index_key_def INDEX_NAME_def
          entry_matches_def demo_env_def)
  show ?thesis unfolding s1 s2 ap fst_conv snd_conv using e1 e2 by simp
qed

section \<open>The canonical path in the metadata\<close>





section \<open>Files that are neither text nor PDF\<close>

lemma load_chunks_text:
  "lower (splitext_ext ap) \<noteq> ''.pdf'' \<Longrightarrow>
   load_chunks e cs co ap =
     (case text_load e ap of
        Inl x \<Rightarrow> Inl x
      | Inr file_docs \<Rightarrow>
          (case split_documents e cs co file_docs of
             Inl x \<Rightarrow> Inl x
           | Inr chunks \<Rightarrow> Inr (map (set_source ap) chunks)))"
  by (simp add: load_chunks_def)

text \<open>
  C2, as amended. \<^verbatim>\<open>save_to_memory\<close> has no check of the file type: a path that
  exists and whose extension, lowered, is not \<^verbatim>\<open>.pdf\<close> goes to the text loader (line
  102, the fallback). When the text loader raises, the call returns
  \<^verbatim>\<open>Error processing <canonical path>: <the loader's message>\<close> and leaves the state
  of the dedup pass, so nothing is inserted; when it returns documents that the
  splitter chunks and the vector store accepts, the call returns success and the
  chunks are stored like those of any text file.
\<close>

theorem other_types_fall_back_to_text:
  assumes ctor: "splitter_init e cs co = None"
    and ex: "path_exists e (abspath e p)"
    and np: "lower (splitext_ext (abspath e p)) \<noteq> ''.pdf''"
  shows "(\<forall>x. text_load e (abspath e p) = Inl x \<longrightarrow>
            save_to_memory e s [p] cs co =
              (Returned (''Error processing '' @ abspath e p @ '': '' @ exn_str x),
               dedup_all e s [p])) \<and>
         (\<forall>file_docs chunks.
            text_load e (abspath e p) = Inr file_docs \<and>
            split_documents e cs co file_docs = Inr chunks \<and>
            fst (add_documents e (dedup_all e s [p]) (map (set_source (abspath e p)) chunks)) = None \<longrightarrow>
            save_to_memory e s [p] cs co =
              (Returned (success_msg 1),
               snd (add_documents e (dedup_all e s [p]) (map (set_source (abspath e p)) chunks))))"
proof (intro conjI allI impI)
  fix x assume "text_load e (abspath e p) = Inl x"
  then show "save_to_memory e s [p] cs co =
              (Returned (''Error processing '' @ abspath e p @ '': '' @ exn_str x),
               dedup_all e s [p])"
    using ctor ex by (simp add: save_to_memory_def load_chunks_text[OF np])
next
  fix file_docs chunks
  assume a: "text_load e (abspath e p) = Inr file_docs \<and>
            split_documents e cs co file_docs = Inr chunks \<and>
            fst (add_documents e (dedup_all e s [p]) (map (set_source (abspath e p)) chunks)) = None"
  obtain r s2 where add:
    "add_documents e (dedup_path e s (abspath e p)) (map (set_source (abspath e p)) chunks) = (r, s2)"
    by (cases "add_documents e (dedup_path e s (abspath e p)) (map (set_source (abspath e p)) chunks)")
  with a have "r = None" by simp
  with a add show "save_to_memory e s [p] cs co =
              (Returned (success_msg 1),
               snd (add_documents e (dedup_all e s [p]) (map (set_source (abspath e p)) chunks)))"
    using ctor ex by (simp add: save_to_memory_def load_chunks_text[OF np])
qed

theorem other_types_fall_back_to_text_witness:
  "splitter_init demo_env 1000 100 = None \<and>
   path_exists demo_env (abspath demo_env ''image.png'') \<and>
   lower (splitext_ext (abspath demo_env ''image.png'')) = ''.png'' \<and>
   text_load demo_env (abspath demo_env ''image.png'') = Inl (Exn ''Error loading /abs/image.png'') \<and>
   save_to_memory demo_env store_b [''image.png''] 1000 100 =
     (Returned ''Error processing /abs/image.png: Error loading /abs/image.png'', store_b) \<and>
   path_exists demo_env (abspath demo_env ''a.txt'') \<and>
   lower (splitext_ext (abspath demo_env ''a.txt'')) = ''.txt'' \<and>
   save_to_memory demo_env [] [''a.txt''] 1000 100 =
     (Returned (success_msg 1),
      [(''doc_chunks:0'', [(''text'', ''alpha''), (''source_file'', ''/abs/a.txt'')])])"
proof -
  have c: "splitter_init demo_env 1000 100 = None" by (simp add: demo_defs)
  have ex: "path_exists demo_env (abspath demo_env ''image.png'')" by (simp add: demo_defs)
  have ext: "lower (splitext_ext (abspath demo_env ''image.png'')) = ''.png''"
    by (simp add: demo_defs)
  then have np: "lower (splitext_ext (abspath demo_env ''image.png'')) \<noteq> ''.pdf''" by simp
  have tl: "text_load demo_env (abspath demo_env ''image.png'') = Inl (Exn ''Error loading /abs/image.png'')"
    by (simp add: demo_defs)
  have dd: "dedup_all demo_env store_b [''image.png''] = store_b" by (simp add: demo_defs)
  have ap: "abspath demo_env ''image.png'' = ''/abs/image.png''" by (simp add: demo_defs)
  from other_types_fall_back_to_text[OF c ex np, of store_b] tl dd ap
  have s1: "save_to_memory demo_env store_b [''image.png''] 1000 100 =
     (Returned ''Error processing /abs/image.png: Error loading /abs/image.png'', store_b)"
    by simp
  have ex2: "path_exists demo_env (abspath demo_env ''a.txt'')" by (simp add: demo_defs)
  have ext2: "lower (splitext_ext (abspath demo_env ''a.txt'')) = ''.txt''" by (simp add: demo_defs)
  then have np2: "lower (splitext_ext (abspath demo_env ''a.txt'')) \<noteq> ''.pdf''" by simp
  have ap2: "abspath demo_env ''a.txt'' = ''/abs/a.txt''" by (simp add: demo_defs)
  have tl2: "text_load demo_env ''/abs/a.txt'' = Inr [demo_doc ''/abs/a.txt'' ''alpha'']"
    by (simp add: demo_defs)
  have sd2: "split_documents demo_env 1000 100 [demo_doc ''/abs/a.txt'' ''alpha''] =
             Inr [demo_doc ''/abs/a.txt'' ''alpha'']" by (simp add: demo_defs)
  have ad2: "add_documents demo_env (dedup_all demo_env [] [''a.txt''])
               (map (set_source ''/abs/a.txt'') [demo_doc ''/abs/a.txt'' ''alpha'']) =
             (None, [(''doc_chunks:0'', [(''text'', ''alpha''), (''source_file'', ''/abs/a.txt'')])])"
    by (simp add: demo_defs)
  from other_types_fall_back_to_text[OF c ex2 np2, of "[]"] ap2 tl2 sd2 ad2
  have s2: "save_to_memory demo_env [] [''a.txt''] 1000 100 =
     (Returned (success_msg 1),
      [(''doc_chunks:0'', [(''text'', ''alpha''), (''source_file'', ''/abs/a.txt'')])])"
    by simp
  show ?thesis using c ex ext tl s1 ex2 ext2 s2 by simp
qed

text \<open>
  C2 as stated fails twice. The drawing \<^verbatim>\<open>logo.svg\<close>, an image and neither plain text
  nor PDF, is read by the text loader, chunked and stored, and the call returns
  success. The binary \<^verbatim>\<open>image.png\<close> is refused only because the text loader cannot
  decode it: what the call returns is that loader's message, which says nothing of
  an unsupported type.
\<close>

theorem unsupported_type_counterexample:
  "lower (splitext_ext (abspath demo_env ''logo.svg'')) = ''.svg'' \<and>
   save_to_memory demo_env [] [''logo.svg''] 1000 100 =
     (Returned (success_msg 1),
      [(''doc_chunks:0'', [(''text'', ''<svg></svg>''), (''source_file'', ''/abs/logo.svg'')])]) \<and>
   save_to_memory demo_env [] [''image.png''] 1000 100 =
     (Returned ''Error processing /abs/image.png: Error loading /abs/image.png'', [])"
  by (simp add: demo_defs)

section \<open>The chunk sizes\<close>

text \<open>
  C5, as amended. \<^verbatim>\<open>save_to_memory\<close> never compares \<open>chunk_overlap\<close> with
  \<open>chunk_size\<close>: it hands both to the constructor of the splitter (lines 54 to 56),
  before the first access to the index. Sizes the constructor accepts are used,
  whatever their order: when every file loads and the insert raises nothing the call
  returns success. Sizes the constructor refuses end the call there: the index is
  left as it was and no success message is returned.
\<close>

theorem chunk_sizes_left_to_splitter:
  "(splitter_init e cs co = None \<and> load_files e cs co fps [] = Inr docs \<and>
    fst (add_documents e (dedup_all e s fps) docs) = None \<longrightarrow>
      save_to_memory e s fps cs co =
        (Returned (success_msg (length fps)), snd (add_documents e (dedup_all e s fps) docs))) \<and>
   (\<forall>x. splitter_init e cs co = Some x \<longrightarrow>
      snd (save_to_memory e s fps cs co) = s \<and>
      (\<forall>n. fst (save_to_memory e s fps cs co) \<noteq> Returned (success_msg n)))"
proof (intro conjI allI impI)
  assume a: "splitter_init e cs co = None \<and> load_files e cs co fps [] = Inr docs \<and>
    fst (add_documents e (dedup_all e s fps) docs) = None"
  then show "save_to_memory e s fps cs co =
        (Returned (success_msg (length fps)), snd (add_documents e (dedup_all e s fps) docs))"
    by (cases "add_documents e (dedup_all e s fps) docs") (simp add: save_to_memory_def)
next
  fix x assume x: "splitter_init e cs co = Some x"
  then show "snd (save_to_memory e s fps cs co) = s" by (simp add: save_to_memory_def)
  fix n
  from x show "fst (save_to_memory e s fps cs co) \<noteq> Returned (success_msg n)"
    by (simp add: save_to_memory_def)
qed

theorem chunk_sizes_left_to_splitter_witness:
  "splitter_init demo_env 10 10 = None \<and>
   load_files demo_env 10 10 [''a.txt''] [] =
     Inr [\<lparr>page_content = ''alpha'',
           metadata = [(''source'', PStr ''/abs/a.txt''), (''source_file'', PStr ''/abs/a.txt'')]\<rparr>] \<and>
   save_to_memory demo_env store_b [''a.txt''] 10 10 =
     (Returned (success_msg 1),
      [(''doc_chunks:b1'', [(''text'', ''beta''), (''source_file'', ''/abs/b.txt'')]),
       (''doc_chunks:000'', [(''text'', ''alpha''), (''source_file'', ''/abs/a.txt'')])]) \<and>
   splitter_init demo_env 10 20 = Some (Exn ''Got a larger chunk overlap than chunk size'') \<and>
   snd (save_to_memory demo_env store_b [''a.txt''] 10 20) = store_b \<and>
   fst (save_to_memory demo_env store_b [''a.txt''] 10 20) \<noteq> Returned (success_msg 1)"
proof -
  let ?d = "\<lparr>page_content = ''alpha'',
           metadata = [(''source'', PStr ''/abs/a.txt''), (''source_file'', PStr ''/abs/a.txt'')]\<rparr>"
  let ?n = "(''doc_chunks:000'', [(''text'', ''alpha''), (''source_file'', ''/abs/a.txt'')])"
  have c: "splitter_init demo_env 10 10 = None" by (simp add: demo_defs)
  have lf: "load_files demo_env 10 10 [''a.txt''] [] = Inr [?d]" by (simp add: demo_defs)
  have ad: "add_documents demo_env (dedup_all demo_env store_b [''a.txt'']) [?d] =
      (None, store_b @ [?n])"
    by (simp add: demo_defs)
  from chunk_sizes_left_to_splitter[of demo_env 10 10 "[''a.txt'']" "[?d]" store_b] c lf ad
  have s1: "save_to_memory demo_env store_b [''a.txt''] 10 10 =
      (Returned (success_msg 1), store_b @ [?n])"
    by simp
  have r: "splitter_init demo_env 10 20 = Some (Exn ''Got a larger chunk overlap than chunk size'')"
    by (simp add: demo_defs)
  from chunk_sizes_left_to_splitter[of demo_env 10 20 "[''a.txt'']" "[?d]" store_b] r
  have s2: "snd (save_to_memory demo_env store_b [''a.txt''] 10 20) = store_b"
    and s3: "fst (save_to_memory demo_env store_b [''a.txt''] 10 20) \<noteq> Returned (success_msg 1)"
    by blast+
  show ?thesis using c lf s1 r s2 s3 by (simp add: store_b_def)
qed

text \<open>
  C5 as stated fails twice, at \<open>chunk_size = chunk_overlap = 10\<close>. With a splitter
  that refuses every overlap not below the chunk size, the refusal leaves
  \<^verbatim>\<open>save_to_memory\<close> as an exception, not as a returned string: the constructor is
  called outside every \<^verbatim>\<open>try\<close>. With langchain's splitter, which refuses only an
  overlap above the chunk size, the sizes are accepted and the file is saved.
\<close>

theorem overlap_not_below_size_counterexample:
  "save_to_memory strict_env [] [''a.txt''] 10 10 =
     (Raised (Exn ''chunk_overlap must be smaller than chunk_size''), []) \<and>
   save_to_memory demo_env [] [''a.txt''] 10 10 =
     (Returned (success_msg 1),
      [(''doc_chunks:0'', [(''text'', ''alpha''), (''source_file'', ''/abs/a.txt'')])])"
  by (simp add: demo_defs)

end
